theory Spec2Isabelle
  imports Complex_Main "HOL-Library.AList"
begin

section \<open>The robot interface of wrap\_python\_robot\_interface.cpp\<close>

text \<open>
  The class \<open>RobotInterfacePython\<close> holds two handles, \<open>robot_model\<close> and
  \<open>current_state_monitor\<close> (the members \<open>robot_model_\<close> and
  \<open>current_state_monitor_\<close> of the source), and answers queries by reading them. The
  wrapper copies \<open>double\<close> values and does no arithmetic on them, so their type is the
  parameter \<open>'d\<close> throughout. Its one numeric step, the conversion of a rotation to a
  quaternion in \<open>getLinkPose\<close>, is not modelled: a transform carries its rotation as the
  quaternion \<open>(x, y, z, w)\<close>.
\<close>

subsection \<open>The kinematic model, as the wrapper reads it\<close>

text \<open>
  The model classes are declared outside the source file. Each one is a record of what
  its accessors return: a lookup that yields a null pointer in C++ yields \<open>None\<close> here.
  The wrapper calls the name lists, \<open>getJointModel\<close>, \<open>getJointModelGroup\<close>,
  \<open>getModelFrame\<close>, \<open>getVariableLimits\<close>, \<open>getName\<close>, \<open>hasJointModel\<close> and
  \<open>getVariableCount\<close>; the other fields are read by the robot state below. The count of
  variables is an \<open>unsigned int\<close> that is only compared, so it is a natural number.
\<close>

record 'd JointLimits =
  min_position :: 'd
  max_position :: 'd

record 'd JointModel =
  getVariableNames :: "string list"
  getVariableLimits :: "'d JointLimits list"
  getParentLinkModel :: string

record LinkModel =
  getParentJointModel :: "string option"

record JointModelGroup =
  getName :: string
  getGroupJointModelNames :: "string list"
  getVariableCount :: nat

record 'd Affine3d =
  translation :: "'d \<times> 'd \<times> 'd"
  rotation :: "'d \<times> 'd \<times> 'd \<times> 'd"

record 'd RobotModel =
  getJointModelNames :: "string list"
  getLinkModelNames :: "string list"
  getJointModelGroupNames :: "string list"
  getJointModel :: "string \<Rightarrow> 'd JointModel option"
  getLinkModel :: "string \<Rightarrow> LinkModel option"
  getJointModelGroup :: "string \<Rightarrow> JointModelGroup option"
  getModelFrame :: string
  getModelVariableNames :: "string list"
  composeChain :: "string \<Rightarrow> (string \<times> 'd list) list \<Rightarrow> 'd Affine3d"

definition hasJointModel :: "JointModelGroup \<Rightarrow> string \<Rightarrow> bool" where
  "hasJointModel jmg joint_name = (joint_name \<in> set (getGroupJointModelNames jmg))"

subsection \<open>The process state the wrapper touches\<close>

datatype fault = NullPointerDereference

datatype log_level = ROS_ERROR | ROS_WARN

type_synonym 'd table = "(string \<times> ('d \<times> nat \<times> nat)) list"

record 'd joint_update =
  update_values :: "(string \<times> 'd) list"
  update_stamp :: nat
  update_seq :: nat

type_synonym 'd arrivals = "(real \<times> 'd joint_update) list"

record 'd CurrentStateMonitor =
  monitor_model :: "'d RobotModel"
  active :: bool
  subscriptions :: nat
  joint_value_table :: "'d table"

record 'd RobotInterfacePython =
  robot_model :: "'d RobotModel option"
  current_state_monitor :: "'d CurrentStateMonitor option"
  rosout :: "(log_level \<times> string) list"

text \<open>
  The constructor stores what the two collaborators hand back; it has no check and no
  throw of its own. The collaborators are parameters: the model source, and the factory
  of the shared monitor (which is given the model handle).
\<close>

definition RobotInterfacePython_new ::
  "(string \<Rightarrow> 'd RobotModel option) \<Rightarrow> ('d RobotModel option \<Rightarrow> 'd CurrentStateMonitor option)
     \<Rightarrow> string \<Rightarrow> 'd RobotInterfacePython" where
  "RobotInterfacePython_new getSharedRobotModel getSharedStateMonitor robot_description =
     (let rm = getSharedRobotModel robot_description
      in \<lparr>robot_model = rm, current_state_monitor = getSharedStateMonitor rm, rosout = []\<rparr>)"

subsection \<open>Queries on the model\<close>

definition getJointNames :: "'d RobotInterfacePython \<Rightarrow> fault + string list" where
  "getJointNames self =
     (case robot_model self of None \<Rightarrow> Inl NullPointerDereference
      | Some m \<Rightarrow> Inr (getJointModelNames m))"

definition getLinkNames :: "'d RobotInterfacePython \<Rightarrow> fault + string list" where
  "getLinkNames self =
     (case robot_model self of None \<Rightarrow> Inl NullPointerDereference
      | Some m \<Rightarrow> Inr (getLinkModelNames m))"

definition getGroupNames :: "'d RobotInterfacePython \<Rightarrow> fault + string list" where
  "getGroupNames self =
     (case robot_model self of None \<Rightarrow> Inl NullPointerDereference
      | Some m \<Rightarrow> Inr (getJointModelGroupNames m))"

fun limits_loop :: "'d JointLimits list \<Rightarrow> 'd list list \<Rightarrow> 'd list list" where
  "limits_loop [] result = result"
| "limits_loop (jl # jls) result =
     limits_loop jls (result @ [[min_position jl, max_position jl]])"

definition getJointLimits :: "'d RobotInterfacePython \<Rightarrow> string \<Rightarrow> fault + 'd list list" where
  "getJointLimits self name =
     (case robot_model self of None \<Rightarrow> Inl NullPointerDereference
      | Some m \<Rightarrow>
          (case getJointModel m name of None \<Rightarrow> Inr []
           | Some jm \<Rightarrow> Inr (limits_loop (getVariableLimits jm) [])))"

definition getPlanningFrame :: "'d RobotInterfacePython \<Rightarrow> fault + string" where
  "getPlanningFrame self =
     (case robot_model self of None \<Rightarrow> Inl NullPointerDereference
      | Some m \<Rightarrow> Inr (getModelFrame m))"

text \<open>
  The loop of \<open>findMinContainingGroup\<close>: \<open>grp\<close> (the source's \<open>group\<close>) is the best group so far (null at the
  start), replaced only when the new group has strictly fewer variables. A listed name
  that resolves to no group would be dereferenced as a null pointer.
\<close>

fun findMin_loop ::
  "'d RobotModel \<Rightarrow> string \<Rightarrow> string list \<Rightarrow> JointModelGroup option
     \<Rightarrow> fault + JointModelGroup option" where
  "findMin_loop m joint_name [] grp = Inr grp"
| "findMin_loop m joint_name (gname # gnames) grp =
     (case getJointModelGroup m gname of None \<Rightarrow> Inl NullPointerDereference
      | Some jmg \<Rightarrow>
          if hasJointModel jmg joint_name
          then (if (case grp of None \<Rightarrow> True
                    | Some g \<Rightarrow> getVariableCount g > getVariableCount jmg)
                then findMin_loop m joint_name gnames (Some jmg)
                else findMin_loop m joint_name gnames grp)
          else findMin_loop m joint_name gnames grp)"

definition findMinContainingGroup ::
  "'d RobotInterfacePython \<Rightarrow> string \<Rightarrow> fault + string option" where
  "findMinContainingGroup self joint_name =
     (case robot_model self of None \<Rightarrow> Inl NullPointerDereference
      | Some m \<Rightarrow>
          (case findMin_loop m joint_name (getJointModelGroupNames m) None of
             Inl f \<Rightarrow> Inl f
           | Inr grp \<Rightarrow> Inr (map_option getName grp)))"

subsection \<open>The state monitor and the robot state\<close>

text \<open>
  The classes \<open>CurrentStateMonitor\<close> and \<open>RobotState\<close> are not in the source file;
  the wrapper only calls them. Their operations follow the specification of the
  StateMonitor, the JointValueTable and the ForwardKinematicsCache. The table is an
  association list with one entry per variable name (a \<open>std::map\<close>): value, timestamp
  and source-sequence id.
\<close>

text \<open>Modelled from the spec: \<open>JointValueTable.merge\<close>, for one entry of an update.
  The incoming entry overwrites when its timestamp is at least the stored one; at equal
  timestamps the higher source-sequence id wins.\<close>

definition merge_entry :: "nat \<Rightarrow> nat \<Rightarrow> string \<times> 'd \<Rightarrow> 'd table \<Rightarrow> 'd table" where
  "merge_entry t q nv tbl =
     (case map_of tbl (fst nv) of
        None \<Rightarrow> AList.update (fst nv) (snd nv, t, q) tbl
      | Some (v0, t0, q0) \<Rightarrow>
          if t0 < t \<or> (t0 = t \<and> q0 \<le> q) then AList.update (fst nv) (snd nv, t, q) tbl
          else tbl)"

text \<open>Modelled from the spec: \<open>JointValueTable.merge\<close>, for a whole update event.\<close>

definition merge :: "'d joint_update \<Rightarrow> 'd table \<Rightarrow> 'd table" where
  "merge u tbl = fold (merge_entry (update_stamp u) (update_seq u)) (update_values u) tbl"

text \<open>Modelled from the spec: \<open>JointValueTable.isComplete\<close>, true iff every required
  variable has been set at least once.\<close>

definition isComplete :: "'d table \<Rightarrow> string list \<Rightarrow> bool" where
  "isComplete tbl required = list_all (\<lambda>v. map_of tbl v \<noteq> None) required"

text \<open>Modelled from the spec: the activity flag of the StateMonitor
  (\<open>CurrentStateMonitor::isActive\<close>).\<close>

definition isActive :: "'d CurrentStateMonitor \<Rightarrow> bool" where
  "isActive mon = active mon"

text \<open>Modelled from the spec: \<open>StateMonitor.start\<close>
  (\<open>CurrentStateMonitor::startStateMonitor\<close>). It moves an inactive monitor to Active and
  subscribes to the update source; on an active monitor it does nothing.\<close>

definition startStateMonitor :: "'d CurrentStateMonitor \<Rightarrow> 'd CurrentStateMonitor" where
  "startStateMonitor mon =
     (if active mon then mon
      else mon\<lparr>active := True, subscriptions := Suc (subscriptions mon)\<rparr>)"

text \<open>Modelled from the spec: the ingest path of the StateMonitor, for one update event
  of the update source. An active monitor merges the event into its table; a monitor
  that is not active is not subscribed and ingests nothing. The ingest path runs on its
  own, also between two calls of the interface: then it changes the state that the next
  call starts from.\<close>

definition ingest :: "'d joint_update \<Rightarrow> 'd CurrentStateMonitor \<Rightarrow> 'd CurrentStateMonitor" where
  "ingest u mon =
     (if active mon then mon\<lparr>joint_value_table := merge u (joint_value_table mon)\<rparr>
      else mon)"

text \<open>Modelled from the spec: completeness of the monitor's table over all variables of
  its model.\<close>

definition haveCompleteState :: "'d CurrentStateMonitor \<Rightarrow> bool" where
  "haveCompleteState mon =
     isComplete (joint_value_table mon) (getModelVariableNames (monitor_model mon))"

text \<open>Modelled from the spec: the blocking part of \<open>StateMonitor.waitForFullState\<close>,
  over the update events that are ingested while the caller is blocked, in order; the
  wait ends as soon as the table is complete.\<close>

fun wait_loop :: "'d joint_update list \<Rightarrow> 'd CurrentStateMonitor \<Rightarrow> bool \<times> 'd CurrentStateMonitor" where
  "wait_loop [] mon = (haveCompleteState mon, mon)"
| "wait_loop (u # us) mon =
     (if haveCompleteState mon then (True, mon) else wait_loop us (ingest u mon))"

text \<open>Modelled from the spec: the events of \<open>arrivals\<close> that the timeout lets in. Each
  event of \<open>arrivals\<close> comes with its delay in seconds after the start of the wait; an
  event later than the timeout is not waited for.\<close>

definition arrived_within :: "real \<Rightarrow> 'd arrivals \<Rightarrow> 'd arrivals" where
  "arrived_within timeout arrivals = filter (\<lambda>(delay, u). delay \<le> timeout) arrivals"

text \<open>Modelled from the spec: \<open>StateMonitor.waitForFullState(timeoutSeconds)\<close>
  (\<open>CurrentStateMonitor::waitForCurrentState\<close>). It blocks until the table is complete
  over all variables of the model or the timeout elapses, and returns whether
  completeness was reached.\<close>

definition waitForCurrentState ::
  "'d CurrentStateMonitor \<Rightarrow> real \<Rightarrow> 'd arrivals \<Rightarrow> bool \<times> 'd CurrentStateMonitor" where
  "waitForCurrentState mon timeout arrivals = wait_loop (map snd (arrived_within timeout arrivals)) mon"

text \<open>Modelled from the spec: \<open>StateMonitor.currentSnapshot\<close>
  (\<open>CurrentStateMonitor::getCurrentStateValues\<close>): whatever is known, name to value.\<close>

definition getCurrentStateValues :: "'d CurrentStateMonitor \<Rightarrow> (string \<times> 'd) list" where
  "getCurrentStateValues mon = map (\<lambda>(n, v, t, q). (n, v)) (joint_value_table mon)"

text \<open>Modelled from the spec: the Snapshot handed to the queries (\<open>RobotState\<close>), and
  what its two lookups return (\<open>JointState\<close>, \<open>LinkState\<close>).\<close>

record 'd RobotState =
  state_model :: "'d RobotModel"
  state_values :: "(string \<times> 'd) list"

record 'd JointState =
  getVariableValues :: "'d list"

record 'd LinkState =
  getGlobalLinkTransform :: "'d Affine3d"

text \<open>Modelled from the spec: \<open>StateMonitor.currentSnapshot\<close> as a robot state
  (\<open>CurrentStateMonitor::getCurrentState\<close>): the snapshot together with the model.\<close>

definition getCurrentState :: "'d CurrentStateMonitor \<Rightarrow> 'd RobotState" where
  "getCurrentState mon =
     \<lparr>state_model = monitor_model mon, state_values = getCurrentStateValues mon\<rparr>"

text \<open>Modelled from the spec: \<open>ForwardKinematicsCache.jointValues\<close> for a joint name
  (\<open>RobotState::getJointState\<close>): none for an unknown joint; otherwise the recorded values
  of the joint's variables in declared order, empty when nothing is recorded yet.\<close>

definition getJointState :: "'d RobotState \<Rightarrow> string \<Rightarrow> 'd JointState option" where
  "getJointState st name =
     (case getJointModel (state_model st) name of None \<Rightarrow> None
      | Some jm \<Rightarrow>
          Some \<lparr>getVariableValues =
                  List.map_filter (map_of (state_values st)) (getVariableNames jm)\<rparr>)"

text \<open>Modelled from the spec: the chain of joints from the root to a link, root first,
  found by walking from the link to its parent joint and on to that joint's parent link.
  The fuel bounds the walk, so that a cyclic model yields no chain instead of an endless
  walk.\<close>

fun joint_chain :: "nat \<Rightarrow> 'd RobotModel \<Rightarrow> string \<Rightarrow> string list option" where
  "joint_chain 0 m link = None"
| "joint_chain (Suc n) m link =
     (case getLinkModel m link of None \<Rightarrow> None
      | Some lm \<Rightarrow>
          (case getParentJointModel lm of None \<Rightarrow> Some []
           | Some j \<Rightarrow>
               (case getJointModel m j of None \<Rightarrow> None
                | Some jm \<Rightarrow>
                    (case joint_chain n m (getParentLinkModel jm) of None \<Rightarrow> None
                     | Some js \<Rightarrow> Some (js @ [j])))))"

text \<open>Modelled from the spec: the bound of the walk, one step per link of the model and
  one more.\<close>

definition chain_fuel :: "'d RobotModel \<Rightarrow> nat" where
  "chain_fuel m = Suc (length (getLinkModelNames m))"

text \<open>Modelled from the spec: the value of one joint of the chain in a snapshot, none
  when the joint is unknown or one of its variables is missing from the snapshot.\<close>

definition chain_joint_value ::
  "'d RobotModel \<Rightarrow> (string \<times> 'd) list \<Rightarrow> string \<Rightarrow> (string \<times> 'd list) option" where
  "chain_joint_value m snap j =
     (case getJointModel m j of None \<Rightarrow> None
      | Some jm \<Rightarrow>
          (case those (map (map_of snap) (getVariableNames jm)) of None \<Rightarrow> None
           | Some vs \<Rightarrow> Some (j, vs)))"

text \<open>Modelled from the spec: \<open>ForwardKinematicsCache.linkPose\<close>
  (\<open>RobotState::getLinkState\<close>): the transforms of the chain are composed from the joint
  values present in the snapshot; if a joint of the chain is missing, the result is
  none. The composition itself (geometry and floating point) is the model's
  \<open>composeChain\<close>.\<close>

definition getLinkState :: "'d RobotState \<Rightarrow> string \<Rightarrow> 'd LinkState option" where
  "getLinkState st name =
     (case joint_chain (chain_fuel (state_model st)) (state_model st) name of None \<Rightarrow> None
      | Some js \<Rightarrow>
          (case those (map (chain_joint_value (state_model st) (state_values st)) js) of
             None \<Rightarrow> None
           | Some jvs \<Rightarrow>
               Some \<lparr>getGlobalLinkTransform = composeChain (state_model st) name jvs\<rparr>))"

subsection \<open>Queries on the live state\<close>

definition log_msg ::
  "log_level \<Rightarrow> string \<Rightarrow> 'd RobotInterfacePython \<Rightarrow> 'd RobotInterfacePython" where
  "log_msg lvl msg self = self\<lparr>rosout := rosout self @ [(lvl, msg)]\<rparr>"

definition unable_msg :: string where
  "unable_msg = ''Unable to get current robot state''"

definition not_known_msg :: string where
  "not_known_msg =
     ''Joint values for monitored state are requested but the full state is not known''"

text \<open>
  \<open>ensureCurrentState\<close>: an absent monitor is an error and \<open>false\<close>; an inactive monitor is
  started and waited for, with a warning when the wait does not reach the full state; an
  active monitor is left alone. The timeout is the source's literal \<open>1.0\<close>, in seconds.
  \<open>arrivals\<close> are the update events that the update source delivers while the call is
  blocked in \<open>waitForCurrentState\<close>; a call that does not block takes none of them.
\<close>

definition ensureCurrentState ::
  "'d RobotInterfacePython \<Rightarrow> 'd arrivals \<Rightarrow> bool \<times> 'd RobotInterfacePython" where
  "ensureCurrentState self arrivals =
     (case current_state_monitor self of
        None \<Rightarrow> (False, log_msg ROS_ERROR unable_msg self)
      | Some mon \<Rightarrow>
          if \<not> isActive mon
          then (case waitForCurrentState (startStateMonitor mon) 1 arrivals of
                  (ok, mon') \<Rightarrow>
                    (let self' = self\<lparr>current_state_monitor := Some mon'\<rparr>
                     in (True, if \<not> ok then log_msg ROS_WARN not_known_msg self' else self')))
          else (True, self))"

definition pose_list :: "'d Affine3d \<Rightarrow> 'd list" where
  "pose_list t =
     (case translation t of (x, y, z) \<Rightarrow>
        (case rotation t of (qx, qy, qz, qw) \<Rightarrow> [x, y, z, qx, qy, qz, qw]))"

definition getLinkPose ::
  "'d RobotInterfacePython \<Rightarrow> string \<Rightarrow> 'd arrivals
     \<Rightarrow> fault + ('d list \<times> 'd RobotInterfacePython)" where
  "getLinkPose self name arrivals =
     (case ensureCurrentState self arrivals of
        (False, self') \<Rightarrow> Inr ([], self')
      | (True, self') \<Rightarrow>
          (case current_state_monitor self' of None \<Rightarrow> Inl NullPointerDereference
           | Some mon \<Rightarrow>
               (case getLinkState (getCurrentState mon) name of
                  None \<Rightarrow> Inr ([], self')
                | Some ls \<Rightarrow> Inr (pose_list (getGlobalLinkTransform ls), self'))))"

definition getCurrentJointValues ::
  "'d RobotInterfacePython \<Rightarrow> string \<Rightarrow> 'd arrivals
     \<Rightarrow> fault + ('d list \<times> 'd RobotInterfacePython)" where
  "getCurrentJointValues self name arrivals =
     (case ensureCurrentState self arrivals of
        (False, self') \<Rightarrow> Inr ([], self')
      | (True, self') \<Rightarrow>
          (case current_state_monitor self' of None \<Rightarrow> Inl NullPointerDereference
           | Some mon \<Rightarrow>
               (case getJointState (getCurrentState mon) name of
                  None \<Rightarrow> Inr ([], self')
                | Some js \<Rightarrow> Inr (getVariableValues js, self'))))"

text \<open>
  \<open>getCurrentVariableValues\<close> has its own copy of the checks: the start is guarded by
  \<open>isActive\<close>, the wait is not. The loop copies the monitor's map into the dictionary.
\<close>

definition dict_of :: "(string \<times> 'd) list \<Rightarrow> (string \<rightharpoonup> 'd)" where
  "dict_of vars = fold (\<lambda>(k, v) d. d(k \<mapsto> v)) vars Map.empty"

definition getCurrentVariableValues ::
  "'d RobotInterfacePython \<Rightarrow> 'd arrivals
     \<Rightarrow> (string \<rightharpoonup> 'd) \<times> 'd RobotInterfacePython" where
  "getCurrentVariableValues self arrivals =
     (case current_state_monitor self of
        None \<Rightarrow> (Map.empty, log_msg ROS_ERROR unable_msg self)
      | Some mon \<Rightarrow>
          (let mon1 = (if \<not> isActive mon then startStateMonitor mon else mon)
           in (case waitForCurrentState mon1 1 arrivals of
                 (ok, mon') \<Rightarrow>
                   (let self' = self\<lparr>current_state_monitor := Some mon'\<rparr>;
                        self'' = (if \<not> ok then log_msg ROS_WARN not_known_msg self' else self')
                    in (dict_of (getCurrentStateValues mon'), self'')))))"

subsection \<open>The bound methods\<close>

text \<open>
  \<open>wrap_robot_interface\<close> binds nine methods. A call names one of them with its
  argument; a query on the live state also carries the update events, with their
  delays, that arrive while it waits. A fault ends the run.
\<close>

datatype 'd call =
    GetJointNames
  | GetGroupNames
  | GetLinkNames
  | GetJointLimits string
  | GetLinkPose string "'d arrivals"
  | GetPlanningFrame
  | GetCurrentVariableValues "'d arrivals"
  | GetCurrentJointValues string "'d arrivals"
  | FindMinContainingGroup string

datatype 'd result =
    StringList "string list"
  | LimitList "'d list list"
  | DoubleList "'d list"
  | CString "string option"
  | Dict "string \<rightharpoonup> 'd"

definition pure_call ::
  "'d RobotInterfacePython \<Rightarrow> ('a \<Rightarrow> 'd result) \<Rightarrow> fault + 'a
     \<Rightarrow> fault + ('d result \<times> 'd RobotInterfacePython)" where
  "pure_call self wrap r = (case r of Inl f \<Rightarrow> Inl f | Inr x \<Rightarrow> Inr (wrap x, self))"

definition live_call ::
  "fault + ('d list \<times> 'd RobotInterfacePython)
     \<Rightarrow> fault + ('d result \<times> 'd RobotInterfacePython)" where
  "live_call r = (case r of Inl f \<Rightarrow> Inl f | Inr (l, self') \<Rightarrow> Inr (DoubleList l, self'))"

fun exec ::
  "'d call \<Rightarrow> 'd RobotInterfacePython \<Rightarrow> fault + ('d result \<times> 'd RobotInterfacePython)" where
  "exec GetJointNames self = pure_call self StringList (getJointNames self)"
| "exec GetGroupNames self = pure_call self StringList (getGroupNames self)"
| "exec GetLinkNames self = pure_call self StringList (getLinkNames self)"
| "exec (GetJointLimits name) self = pure_call self LimitList (getJointLimits self name)"
| "exec (GetLinkPose name arrivals) self = live_call (getLinkPose self name arrivals)"
| "exec GetPlanningFrame self = pure_call self (\<lambda>f. CString (Some f)) (getPlanningFrame self)"
| "exec (GetCurrentVariableValues arrivals) self =
     (case getCurrentVariableValues self arrivals of (d, self') \<Rightarrow> Inr (Dict d, self'))"
| "exec (GetCurrentJointValues name arrivals) self =
     live_call (getCurrentJointValues self name arrivals)"
| "exec (FindMinContainingGroup joint_name) self =
     pure_call self CString (findMinContainingGroup self joint_name)"

fun model_only :: "'d call \<Rightarrow> bool" where
  "model_only (GetLinkPose name arrivals) = False"
| "model_only (GetCurrentVariableValues arrivals) = False"
| "model_only (GetCurrentJointValues name arrivals) = False"
| "model_only c = True"

fun run ::
  "'d call list \<Rightarrow> 'd RobotInterfacePython
     \<Rightarrow> fault + ('d result list \<times> 'd RobotInterfacePython)" where
  "run [] self = Inr ([], self)"
| "run (c # cs) self =
     (case exec c self of Inl f \<Rightarrow> Inl f
      | Inr (r, self') \<Rightarrow>
          (case run cs self' of Inl f \<Rightarrow> Inl f
           | Inr (rs, self'') \<Rightarrow> Inr (r # rs, self'')))"

subsection \<open>Notions of the statements\<close>

text \<open>What the two list-valued queries serve from the snapshot of a monitor.\<close>

definition served_pose :: "'d CurrentStateMonitor \<Rightarrow> string \<Rightarrow> 'd list" where
  "served_pose mon name =
     (case getLinkState (getCurrentState mon) name of None \<Rightarrow> []
      | Some ls \<Rightarrow> pose_list (getGlobalLinkTransform ls))"

definition served_joint_values :: "'d CurrentStateMonitor \<Rightarrow> string \<Rightarrow> 'd list" where
  "served_joint_values mon name =
     (case getJointState (getCurrentState mon) name of None \<Rightarrow> []
      | Some js \<Rightarrow> getVariableValues js)"

text \<open>The interface after a wait that left the monitor as \<open>mon'\<close>: the warning is in the
  log exactly when the wait did not reach the full state.\<close>

definition after_wait ::
  "'d RobotInterfacePython \<Rightarrow> bool \<Rightarrow> 'd CurrentStateMonitor \<Rightarrow> 'd RobotInterfacePython" where
  "after_wait self ok mon' =
     (if ok then self\<lparr>current_state_monitor := Some mon'\<rparr>
      else self\<lparr>current_state_monitor := Some mon',
                rosout := rosout self @ [(ROS_WARN, not_known_msg)]\<rparr>)"

text \<open>The table of a wired monitor has one entry per variable name, as a \<open>std::map\<close>
  has.\<close>

definition table_ok :: "'d RobotInterfacePython \<Rightarrow> bool" where
  "table_ok self =
     (case current_state_monitor self of None \<Rightarrow> True
      | Some mon \<Rightarrow> distinct (map fst (joint_value_table mon)))"

subsection \<open>Example model\<close>

definition G1 :: JointModelGroup where
  "G1 = \<lparr>getName = ''G1'', getGroupJointModelNames = [''j1'', ''j2'', ''j3''],
         getVariableCount = 3\<rparr>"

definition G2 :: JointModelGroup where
  "G2 = \<lparr>getName = ''G2'', getGroupJointModelNames = [''j1'', ''j2''],
         getVariableCount = 2\<rparr>"

definition G3 :: JointModelGroup where
  "G3 = \<lparr>getName = ''G3'', getGroupJointModelNames = [''j2'', ''j1''],
         getVariableCount = 2\<rparr>"

definition revolute :: "string \<Rightarrow> string \<Rightarrow> real JointModel" where
  "revolute var parent =
     \<lparr>getVariableNames = [var],
      getVariableLimits = [\<lparr>min_position = -1, max_position = 1\<rparr>],
      getParentLinkModel = parent\<rparr>"

definition arm :: "real RobotModel" where
  "arm = \<lparr>getJointModelNames = [''j1'', ''j2'', ''j3''],
          getLinkModelNames = [''base'', ''l1'', ''l2'', ''l3''],
          getJointModelGroupNames = [''G1'', ''G2'', ''G3''],
          getJointModel = map_of [(''j1'', revolute ''j1'' ''base''),
                                  (''j2'', revolute ''j2'' ''l1''),
                                  (''j3'', revolute ''j3'' ''l2'')],
          getLinkModel = map_of [(''base'', \<lparr>getParentJointModel = None\<rparr>),
                                 (''l1'', \<lparr>getParentJointModel = Some ''j1''\<rparr>),
                                 (''l2'', \<lparr>getParentJointModel = Some ''j2''\<rparr>),
                                 (''l3'', \<lparr>getParentJointModel = Some ''j3''\<rparr>)],
          getJointModelGroup = map_of [(''G1'', G1), (''G2'', G2), (''G3'', G3)],
          getModelFrame = ''base'',
          getModelVariableNames = [''j1'', ''j2'', ''j3''],
          composeChain = (\<lambda>link chain.
             \<lparr>translation = (sum_list (concat (map snd chain)), 0, 0),
              rotation = (0, 0, 0, 1)\<rparr>)\<rparr>"

definition arm_only :: "real RobotInterfacePython" where
  "arm_only = \<lparr>robot_model = Some arm, current_state_monitor = None, rosout = []\<rparr>"

definition arm_monitor_new :: "real CurrentStateMonitor" where
  "arm_monitor_new =
     \<lparr>monitor_model = arm, active = False, subscriptions = 0, joint_value_table = []\<rparr>"

definition arm_monitor_partial :: "real CurrentStateMonitor" where
  "arm_monitor_partial =
     \<lparr>monitor_model = arm, active = True, subscriptions = 1,
      joint_value_table = [(''j1'', (1, 1, 1))]\<rparr>"

definition arm_new :: "real RobotInterfacePython" where
  "arm_new =
     \<lparr>robot_model = Some arm, current_state_monitor = Some arm_monitor_new, rosout = []\<rparr>"

definition arm_live :: "real RobotInterfacePython" where
  "arm_live =
     \<lparr>robot_model = Some arm, current_state_monitor = Some arm_monitor_partial, rosout = []\<rparr>"

definition update_j1 :: "real joint_update" where
  "update_j1 = \<lparr>update_values = [(''j1'', 1)], update_stamp = 1, update_seq = 1\<rparr>"

definition update_rest :: "real joint_update" where
  "update_rest =
     \<lparr>update_values = [(''j2'', - 1), (''j3'', 0)], update_stamp = 2, update_seq = 2\<rparr>"

definition unresolved_source :: "string \<Rightarrow> real RobotModel option" where
  "unresolved_source robot_description = None"

definition monitor_for :: "real RobotModel option \<Rightarrow> real CurrentStateMonitor option" where
  "monitor_for rm =
     (case rm of None \<Rightarrow> None
      | Some m \<Rightarrow>
          Some \<lparr>monitor_model = m, active = False, subscriptions = 0, joint_value_table = []\<rparr>)"

definition arm_monitor_full :: "real CurrentStateMonitor" where
  "arm_monitor_full =
     \<lparr>monitor_model = arm, active = True, subscriptions = 1,
      joint_value_table = [(''j1'', (1, 1, 1)), (''j2'', (- 1, 2, 2)), (''j3'', (0, 2, 2))]\<rparr>"

definition arm_warned :: "real RobotInterfacePython" where
  "arm_warned =
     \<lparr>robot_model = Some arm, current_state_monitor = Some arm_monitor_partial,
      rosout = [(ROS_WARN, not_known_msg)]\<rparr>"

definition arm_source :: "string \<Rightarrow> real RobotModel option" where
  "arm_source robot_description = Some arm"

definition arm_full :: "real RobotInterfacePython" where
  "arm_full =
     \<lparr>robot_model = Some arm, current_state_monitor = Some arm_monitor_full, rosout = []\<rparr>"

section \<open>Properties\<close>

subsection \<open>The minimal containing group\<close>

lemma findMin_loop_Some:
  assumes "map (getJointModelGroup m) gnames = map Some gs"
  shows "\<exists>r. findMin_loop m j gnames (Some a) = Inr (Some r) \<and>
     ((r = a \<and> (\<forall>x\<in>set gs. hasJointModel x j \<longrightarrow> getVariableCount a \<le> getVariableCount x)) \<or>
      (\<exists>pre post. gs = pre @ r # post \<and> hasJointModel r j \<and>
         getVariableCount r < getVariableCount a \<and>
         (\<forall>x\<in>set pre. hasJointModel x j \<longrightarrow> getVariableCount r < getVariableCount x) \<and>
         (\<forall>x\<in>set post. hasJointModel x j \<longrightarrow> getVariableCount r \<le> getVariableCount x)))"
  using assms
proof (induction gnames arbitrary: gs a)
  case Nil
  then show ?case by simp
next
  case (Cons gname gnames)
  from Cons.prems obtain g gs' where gs: "gs = g # gs'"
    and g: "getJointModelGroup m gname = Some g"
    and rest: "map (getJointModelGroup m) gnames = map Some gs'"
    by (cases gs) auto
  show ?case
  proof (cases "hasJointModel g j \<and> getVariableCount a > getVariableCount g")
    case True
    from Cons.IH [OF rest, of g] obtain r where
      run: "findMin_loop m j gnames (Some g) = Inr (Some r)" and
      alt: "(r = g \<and> (\<forall>x\<in>set gs'. hasJointModel x j \<longrightarrow> getVariableCount g \<le> getVariableCount x)) \<or>
        (\<exists>pre post. gs' = pre @ r # post \<and> hasJointModel r j \<and>
           getVariableCount r < getVariableCount g \<and>
           (\<forall>x\<in>set pre. hasJointModel x j \<longrightarrow> getVariableCount r < getVariableCount x) \<and>
           (\<forall>x\<in>set post. hasJointModel x j \<longrightarrow> getVariableCount r \<le> getVariableCount x))"
      by blast
    have eq: "findMin_loop m j (gname # gnames) (Some a) = Inr (Some r)"
      using True g run by simp
    from alt show ?thesis
    proof
      assume "r = g \<and> (\<forall>x\<in>set gs'. hasJointModel x j \<longrightarrow> getVariableCount g \<le> getVariableCount x)"
      then have "gs = [] @ r # gs' \<and> hasJointModel r j \<and>
           getVariableCount r < getVariableCount a \<and>
           (\<forall>x\<in>set []. hasJointModel x j \<longrightarrow> getVariableCount r < getVariableCount x) \<and>
           (\<forall>x\<in>set gs'. hasJointModel x j \<longrightarrow> getVariableCount r \<le> getVariableCount x)"
        using True gs by simp
      then show ?thesis using eq by blast
    next
      assume "\<exists>pre post. gs' = pre @ r # post \<and> hasJointModel r j \<and>
           getVariableCount r < getVariableCount g \<and>
           (\<forall>x\<in>set pre. hasJointModel x j \<longrightarrow> getVariableCount r < getVariableCount x) \<and>
           (\<forall>x\<in>set post. hasJointModel x j \<longrightarrow> getVariableCount r \<le> getVariableCount x)"
      then obtain pre post where p: "gs' = pre @ r # post" "hasJointModel r j"
           "getVariableCount r < getVariableCount g"
           "\<forall>x\<in>set pre. hasJointModel x j \<longrightarrow> getVariableCount r < getVariableCount x"
           "\<forall>x\<in>set post. hasJointModel x j \<longrightarrow> getVariableCount r \<le> getVariableCount x"
        by blast
      have "gs = (g # pre) @ r # post \<and> hasJointModel r j \<and>
           getVariableCount r < getVariableCount a \<and>
           (\<forall>x\<in>set (g # pre). hasJointModel x j \<longrightarrow> getVariableCount r < getVariableCount x) \<and>
           (\<forall>x\<in>set post. hasJointModel x j \<longrightarrow> getVariableCount r \<le> getVariableCount x)"
        using p True gs by auto
      then show ?thesis using eq by blast
    qed
  next
    case False
    from Cons.IH [OF rest, of a] obtain r where
      run: "findMin_loop m j gnames (Some a) = Inr (Some r)" and
      alt: "(r = a \<and> (\<forall>x\<in>set gs'. hasJointModel x j \<longrightarrow> getVariableCount a \<le> getVariableCount x)) \<or>
        (\<exists>pre post. gs' = pre @ r # post \<and> hasJointModel r j \<and>
           getVariableCount r < getVariableCount a \<and>
           (\<forall>x\<in>set pre. hasJointModel x j \<longrightarrow> getVariableCount r < getVariableCount x) \<and>
           (\<forall>x\<in>set post. hasJointModel x j \<longrightarrow> getVariableCount r \<le> getVariableCount x))"
      by blast
    have eq: "findMin_loop m j (gname # gnames) (Some a) = Inr (Some r)"
      using False g run by auto
    from alt show ?thesis
    proof
      assume "r = a \<and> (\<forall>x\<in>set gs'. hasJointModel x j \<longrightarrow> getVariableCount a \<le> getVariableCount x)"
      then have "r = a \<and> (\<forall>x\<in>set gs. hasJointModel x j \<longrightarrow> getVariableCount a \<le> getVariableCount x)"
        using False gs by auto
      then show ?thesis using eq by blast
    next
      assume "\<exists>pre post. gs' = pre @ r # post \<and> hasJointModel r j \<and>
           getVariableCount r < getVariableCount a \<and>
           (\<forall>x\<in>set pre. hasJointModel x j \<longrightarrow> getVariableCount r < getVariableCount x) \<and>
           (\<forall>x\<in>set post. hasJointModel x j \<longrightarrow> getVariableCount r \<le> getVariableCount x)"
      then obtain pre post where p: "gs' = pre @ r # post" "hasJointModel r j"
           "getVariableCount r < getVariableCount a"
           "\<forall>x\<in>set pre. hasJointModel x j \<longrightarrow> getVariableCount r < getVariableCount x"
           "\<forall>x\<in>set post. hasJointModel x j \<longrightarrow> getVariableCount r \<le> getVariableCount x"
        by blast
      have "gs = (g # pre) @ r # post \<and> hasJointModel r j \<and>
           getVariableCount r < getVariableCount a \<and>
           (\<forall>x\<in>set (g # pre). hasJointModel x j \<longrightarrow> getVariableCount r < getVariableCount x) \<and>
           (\<forall>x\<in>set post. hasJointModel x j \<longrightarrow> getVariableCount r \<le> getVariableCount x)"
        using p False gs by auto
      then show ?thesis using eq by blast
    qed
  qed
qed

lemma findMin_loop_None:
  assumes "map (getJointModelGroup m) gnames = map Some gs"
  shows "\<exists>r. findMin_loop m j gnames None = Inr r \<and>
     ((r = None \<and> (\<forall>x\<in>set gs. \<not> hasJointModel x j)) \<or>
      (\<exists>pre g post. gs = pre @ g # post \<and> hasJointModel g j \<and> r = Some g \<and>
         (\<forall>x\<in>set pre. hasJointModel x j \<longrightarrow> getVariableCount g < getVariableCount x) \<and>
         (\<forall>x\<in>set post. hasJointModel x j \<longrightarrow> getVariableCount g \<le> getVariableCount x)))"
  using assms
proof (induction gnames arbitrary: gs)
  case Nil
  then show ?case by simp
next
  case (Cons gname gnames)
  from Cons.prems obtain g gs' where gs: "gs = g # gs'"
    and g: "getJointModelGroup m gname = Some g"
    and rest: "map (getJointModelGroup m) gnames = map Some gs'"
    by (cases gs) auto
  show ?case
  proof (cases "hasJointModel g j")
    case True
    from findMin_loop_Some [OF rest, of j g] obtain r where
      run: "findMin_loop m j gnames (Some g) = Inr (Some r)" and
      alt: "(r = g \<and> (\<forall>x\<in>set gs'. hasJointModel x j \<longrightarrow> getVariableCount g \<le> getVariableCount x)) \<or>
        (\<exists>pre post. gs' = pre @ r # post \<and> hasJointModel r j \<and>
           getVariableCount r < getVariableCount g \<and>
           (\<forall>x\<in>set pre. hasJointModel x j \<longrightarrow> getVariableCount r < getVariableCount x) \<and>
           (\<forall>x\<in>set post. hasJointModel x j \<longrightarrow> getVariableCount r \<le> getVariableCount x))"
      by blast
    have eq: "findMin_loop m j (gname # gnames) None = Inr (Some r)"
      using True g run by simp
    from alt show ?thesis
    proof
      assume "r = g \<and> (\<forall>x\<in>set gs'. hasJointModel x j \<longrightarrow> getVariableCount g \<le> getVariableCount x)"
      then have "gs = [] @ r # gs' \<and> hasJointModel r j \<and> Some r = Some r \<and>
           (\<forall>x\<in>set []. hasJointModel x j \<longrightarrow> getVariableCount r < getVariableCount x) \<and>
           (\<forall>x\<in>set gs'. hasJointModel x j \<longrightarrow> getVariableCount r \<le> getVariableCount x)"
        using True gs by simp
      then show ?thesis using eq by blast
    next
      assume "\<exists>pre post. gs' = pre @ r # post \<and> hasJointModel r j \<and>
           getVariableCount r < getVariableCount g \<and>
           (\<forall>x\<in>set pre. hasJointModel x j \<longrightarrow> getVariableCount r < getVariableCount x) \<and>
           (\<forall>x\<in>set post. hasJointModel x j \<longrightarrow> getVariableCount r \<le> getVariableCount x)"
      then obtain pre post where p: "gs' = pre @ r # post" "hasJointModel r j"
           "getVariableCount r < getVariableCount g"
           "\<forall>x\<in>set pre. hasJointModel x j \<longrightarrow> getVariableCount r < getVariableCount x"
           "\<forall>x\<in>set post. hasJointModel x j \<longrightarrow> getVariableCount r \<le> getVariableCount x"
        by blast
      have "gs = (g # pre) @ r # post \<and> hasJointModel r j \<and> Some r = Some r \<and>
           (\<forall>x\<in>set (g # pre). hasJointModel x j \<longrightarrow> getVariableCount r < getVariableCount x) \<and>
           (\<forall>x\<in>set post. hasJointModel x j \<longrightarrow> getVariableCount r \<le> getVariableCount x)"
        using p gs by auto
      then show ?thesis using eq by blast
    qed
  next
    case False
    from Cons.IH [OF rest] obtain r where
      run: "findMin_loop m j gnames None = Inr r" and
      alt: "(r = None \<and> (\<forall>x\<in>set gs'. \<not> hasJointModel x j)) \<or>
        (\<exists>pre g' post. gs' = pre @ g' # post \<and> hasJointModel g' j \<and> r = Some g' \<and>
           (\<forall>x\<in>set pre. hasJointModel x j \<longrightarrow> getVariableCount g' < getVariableCount x) \<and>
           (\<forall>x\<in>set post. hasJointModel x j \<longrightarrow> getVariableCount g' \<le> getVariableCount x))"
      by blast
    have eq: "findMin_loop m j (gname # gnames) None = Inr r"
      using False g run by simp
    from alt show ?thesis
    proof
      assume "r = None \<and> (\<forall>x\<in>set gs'. \<not> hasJointModel x j)"
      then have "r = None \<and> (\<forall>x\<in>set gs. \<not> hasJointModel x j)"
        using False gs by simp
      then show ?thesis using eq by blast
    next
      assume "\<exists>pre g' post. gs' = pre @ g' # post \<and> hasJointModel g' j \<and> r = Some g' \<and>
           (\<forall>x\<in>set pre. hasJointModel x j \<longrightarrow> getVariableCount g' < getVariableCount x) \<and>
           (\<forall>x\<in>set post. hasJointModel x j \<longrightarrow> getVariableCount g' \<le> getVariableCount x)"
      then obtain pre g' post where p: "gs' = pre @ g' # post" "hasJointModel g' j"
           "r = Some g'"
           "\<forall>x\<in>set pre. hasJointModel x j \<longrightarrow> getVariableCount g' < getVariableCount x"
           "\<forall>x\<in>set post. hasJointModel x j \<longrightarrow> getVariableCount g' \<le> getVariableCount x"
        by blast
      have "gs = (g # pre) @ g' # post \<and> hasJointModel g' j \<and> r = Some g' \<and>
           (\<forall>x\<in>set (g # pre). hasJointModel x j \<longrightarrow> getVariableCount g' < getVariableCount x) \<and>
           (\<forall>x\<in>set post. hasJointModel x j \<longrightarrow> getVariableCount g' \<le> getVariableCount x)"
        using p False gs by auto
      then show ?thesis using eq by blast
    qed
  qed
qed

text \<open>
  C1. On a model whose listed group names all resolve (to the groups \<open>gs\<close>, in declaration
  order), \<open>findMinContainingGroup\<close> returns without fault. It returns none exactly when
  no group contains the joint. Otherwise it returns the name of a group \<open>g\<close> that contains
  the joint, such that every containing group declared before \<open>g\<close> has strictly more
  variables and every containing group declared after \<open>g\<close> has at least as many: the
  fewest variables, and the first declared among equals.
\<close>

theorem findMinContainingGroup_minimal:
  assumes "robot_model self = Some m"
    and "map (getJointModelGroup m) (getJointModelGroupNames m) = map Some gs"
  shows "\<exists>r. findMinContainingGroup self j = Inr r \<and>
     ((r = None \<and> (\<forall>x\<in>set gs. \<not> hasJointModel x j)) \<or>
      (\<exists>pre g post. gs = pre @ g # post \<and> hasJointModel g j \<and> r = Some (getName g) \<and>
         (\<forall>x\<in>set pre. hasJointModel x j \<longrightarrow> getVariableCount g < getVariableCount x) \<and>
         (\<forall>x\<in>set post. hasJointModel x j \<longrightarrow> getVariableCount g \<le> getVariableCount x)))"
proof -
  from findMin_loop_None [OF assms(2), of j] obtain r where
    run: "findMin_loop m j (getJointModelGroupNames m) None = Inr r" and
    alt: "(r = None \<and> (\<forall>x\<in>set gs. \<not> hasJointModel x j)) \<or>
      (\<exists>pre g post. gs = pre @ g # post \<and> hasJointModel g j \<and> r = Some g \<and>
         (\<forall>x\<in>set pre. hasJointModel x j \<longrightarrow> getVariableCount g < getVariableCount x) \<and>
         (\<forall>x\<in>set post. hasJointModel x j \<longrightarrow> getVariableCount g \<le> getVariableCount x))"
    by blast
  have eq: "findMinContainingGroup self j = Inr (map_option getName r)"
    using assms(1) run by (simp add: findMinContainingGroup_def)
  from alt show ?thesis
  proof
    assume "r = None \<and> (\<forall>x\<in>set gs. \<not> hasJointModel x j)"
    then show ?thesis using eq by simp
  next
    assume "\<exists>pre g post. gs = pre @ g # post \<and> hasJointModel g j \<and> r = Some g \<and>
         (\<forall>x\<in>set pre. hasJointModel x j \<longrightarrow> getVariableCount g < getVariableCount x) \<and>
         (\<forall>x\<in>set post. hasJointModel x j \<longrightarrow> getVariableCount g \<le> getVariableCount x)"
    then obtain pre g post where p: "gs = pre @ g # post" "hasJointModel g j" "r = Some g"
         "\<forall>x\<in>set pre. hasJointModel x j \<longrightarrow> getVariableCount g < getVariableCount x"
         "\<forall>x\<in>set post. hasJointModel x j \<longrightarrow> getVariableCount g \<le> getVariableCount x"
      by blast
    have "findMinContainingGroup self j = Inr (Some (getName g))"
      using eq p(3) by simp
    then show ?thesis using p by blast
  qed
qed

theorem findMinContainingGroup_minimal_witness:
  "robot_model arm_only = Some arm \<and>
   map (getJointModelGroup arm) (getJointModelGroupNames arm) = map Some [G1, G2, G3] \<and>
   findMinContainingGroup arm_only ''j1'' = Inr (Some ''G2'') \<and>
   findMinContainingGroup arm_only ''j3'' = Inr (Some ''G1'') \<and>
   findMinContainingGroup arm_only ''j9'' = Inr None"
proof -
  have h1: "robot_model arm_only = Some arm" by (simp add: arm_only_def)
  have h2: "map (getJointModelGroup arm) (getJointModelGroupNames arm) = map Some [G1, G2, G3]"
    by (simp add: arm_def)
  show ?thesis
    using h1 h2 findMinContainingGroup_minimal [OF h1 h2, of "''j1''"]
    by (simp add: findMinContainingGroup_def arm_only_def arm_def G1_def G2_def G3_def
        hasJointModel_def)
qed

subsection \<open>What \<open>ensureCurrentState\<close> does, case by case\<close>

lemma ensure_absent:
  "current_state_monitor self = None \<Longrightarrow>
     ensureCurrentState self arrivals = (False, log_msg ROS_ERROR unable_msg self)"
  by (simp add: ensureCurrentState_def)

lemma ensure_active:
  "current_state_monitor self = Some mon \<Longrightarrow> isActive mon \<Longrightarrow>
     ensureCurrentState self arrivals = (True, self)"
  by (simp add: ensureCurrentState_def)

lemma ensure_inactive:
  "current_state_monitor self = Some mon \<Longrightarrow> \<not> isActive mon \<Longrightarrow>
   waitForCurrentState (startStateMonitor mon) 1 arrivals = (ok, mon') \<Longrightarrow>
     ensureCurrentState self arrivals =
       (True, if ok then self\<lparr>current_state_monitor := Some mon'\<rparr>
              else log_msg ROS_WARN not_known_msg (self\<lparr>current_state_monitor := Some mon'\<rparr>))"
  by (simp add: ensureCurrentState_def Let_def)

lemma ingest_frame:
  "monitor_model (ingest u mon) = monitor_model mon \<and> active (ingest u mon) = active mon \<and>
   subscriptions (ingest u mon) = subscriptions mon"
  by (simp add: ingest_def)

lemma wait_loop_frame:
  "wait_loop us mon = (ok, mon') \<Longrightarrow>
     monitor_model mon' = monitor_model mon \<and> active mon' = active mon \<and>
     subscriptions mon' = subscriptions mon"
proof (induction us arbitrary: mon)
  case Nil
  then show ?case by simp
next
  case (Cons u us)
  show ?case
  proof (cases "haveCompleteState mon")
    case True
    with Cons.prems show ?thesis by simp
  next
    case False
    with Cons.prems have "wait_loop us (ingest u mon) = (ok, mon')" by simp
    from Cons.IH [OF this] show ?thesis by (simp add: ingest_frame)
  qed
qed

lemma wait_keeps_model:
  "waitForCurrentState mon timeout arrivals = (ok, mon') \<Longrightarrow>
     monitor_model mon' = monitor_model mon \<and> active mon' = active mon \<and>
     subscriptions mon' = subscriptions mon"
  unfolding waitForCurrentState_def by (rule wait_loop_frame)

lemma start_keeps_model: "monitor_model (startStateMonitor mon) = monitor_model mon"
  by (simp add: startStateMonitor_def)

lemma ensure_monitor:
  assumes "ensureCurrentState self arrivals = (ok, self')"
  shows "(ok \<longrightarrow> current_state_monitor self \<noteq> None) \<and>
    (\<forall>mon'. current_state_monitor self' = Some mon' \<longrightarrow>
       (\<exists>mon. current_state_monitor self = Some mon \<and> monitor_model mon' = monitor_model mon))"
proof (cases "current_state_monitor self")
  case None
  then show ?thesis using assms by (auto simp: ensure_absent log_msg_def)
next
  case (Some mon)
  show ?thesis
  proof (cases "isActive mon")
    case True
    then show ?thesis using assms Some by (simp add: ensure_active)
  next
    case False
    obtain ok1 mon1 where w: "waitForCurrentState (startStateMonitor mon) 1 arrivals = (ok1, mon1)"
      by (cases "waitForCurrentState (startStateMonitor mon) 1 arrivals")
    from wait_keeps_model [OF w] have "monitor_model mon1 = monitor_model mon"
      by (simp add: start_keeps_model)
    then show ?thesis
      using assms Some False ensure_inactive [OF Some False w]
      by (auto simp: log_msg_def split: if_splits)
  qed
qed

lemma ensure_True_monitor:
  "ensureCurrentState self arrivals = (True, self') \<Longrightarrow>
     \<exists>mon'. current_state_monitor self' = Some mon'"
  by (auto simp: ensureCurrentState_def log_msg_def Let_def split: option.splits if_splits prod.splits)

subsection \<open>No monitor wired\<close>

text \<open>
  C6. When no monitor is wired, \<open>ensureCurrentState\<close> logs at error level and returns
  false, and each query on the live state returns an empty result without a fault: the
  empty list for \<open>getLinkPose\<close> and \<open>getCurrentJointValues\<close>, the empty dictionary for
  \<open>getCurrentVariableValues\<close>. Nothing but the log changes.
\<close>

theorem no_monitor_empty_results:
  assumes "current_state_monitor self = None"
  shows "ensureCurrentState self arrivals =
           (False, self\<lparr>rosout := rosout self @ [(ROS_ERROR, unable_msg)]\<rparr>) \<and>
         getLinkPose self name arrivals =
           Inr ([], self\<lparr>rosout := rosout self @ [(ROS_ERROR, unable_msg)]\<rparr>) \<and>
         getCurrentJointValues self name arrivals =
           Inr ([], self\<lparr>rosout := rosout self @ [(ROS_ERROR, unable_msg)]\<rparr>) \<and>
         getCurrentVariableValues self arrivals =
           (Map.empty, self\<lparr>rosout := rosout self @ [(ROS_ERROR, unable_msg)]\<rparr>)"
  using assms
  by (simp add: ensure_absent getLinkPose_def getCurrentJointValues_def
      getCurrentVariableValues_def log_msg_def)

theorem no_monitor_empty_results_witness:
  "current_state_monitor arm_only = None \<and>
   getLinkPose arm_only ''l1'' [(0, update_j1)] =
     Inr ([], \<lparr>robot_model = Some arm, current_state_monitor = None,
               rosout = [(ROS_ERROR, ''Unable to get current robot state'')]\<rparr>) \<and>
   fst (getCurrentVariableValues arm_only [(0, update_j1)]) ''j1'' = None"
proof -
  have h: "current_state_monitor arm_only = None" by (simp add: arm_only_def)
  show ?thesis
    using h no_monitor_empty_results [OF h, of "[(0, update_j1)]" "''l1''"]
    by (simp add: arm_only_def unable_msg_def)
qed

lemma joint_chain_unknown_link:
  "getLinkModel m name = None \<Longrightarrow> joint_chain n m name = None"
  by (cases n) simp_all

subsection \<open>Unknown names\<close>

text \<open>
  C3. A name the model does not know gives an empty result and no fault:
  \<open>getJointLimits\<close> on an unknown joint returns the empty sequence,
  \<open>getCurrentJointValues\<close> on an unknown joint returns the empty sequence, and
  \<open>getLinkPose\<close> on an unknown link returns the empty pose. The last two hold whether or
  not a monitor is wired; the lookups of \<open>RobotState\<close> are those modelled from the
  specification.
\<close>

theorem unknown_name_empty:
  "(robot_model self = Some m \<and> getJointModel m name = None \<longrightarrow>
      getJointLimits self name = Inr []) \<and>
   ((\<forall>mon. current_state_monitor self = Some mon \<longrightarrow>
        getJointModel (monitor_model mon) name = None) \<longrightarrow>
      getCurrentJointValues self name arrivals =
        Inr ([], snd (ensureCurrentState self arrivals))) \<and>
   ((\<forall>mon. current_state_monitor self = Some mon \<longrightarrow>
        getLinkModel (monitor_model mon) name = None) \<longrightarrow>
      getLinkPose self name arrivals = Inr ([], snd (ensureCurrentState self arrivals)))"
proof (intro conjI impI)
  assume "robot_model self = Some m \<and> getJointModel m name = None"
  then show "getJointLimits self name = Inr []"
    by (simp add: getJointLimits_def)
next
  assume u: "\<forall>mon. current_state_monitor self = Some mon \<longrightarrow>
        getJointModel (monitor_model mon) name = None"
  obtain ok self' where e: "ensureCurrentState self arrivals = (ok, self')"
    by (cases "ensureCurrentState self arrivals")
  show "getCurrentJointValues self name arrivals =
        Inr ([], snd (ensureCurrentState self arrivals))"
  proof (cases ok)
    case False
    then show ?thesis using e by (simp add: getCurrentJointValues_def)
  next
    case True
    with e have "ensureCurrentState self arrivals = (True, self')" by simp
    from ensure_True_monitor [OF this] obtain mon' where
      m': "current_state_monitor self' = Some mon'"
      by blast
    with ensure_monitor [OF e] obtain mon where
      "current_state_monitor self = Some mon" "monitor_model mon' = monitor_model mon"
      by blast
    with u have "getJointModel (monitor_model mon') name = None" by simp
    then show ?thesis
      using e True m'
      by (simp add: getCurrentJointValues_def getJointState_def getCurrentState_def)
  qed
next
  assume u: "\<forall>mon. current_state_monitor self = Some mon \<longrightarrow>
        getLinkModel (monitor_model mon) name = None"
  obtain ok self' where e: "ensureCurrentState self arrivals = (ok, self')"
    by (cases "ensureCurrentState self arrivals")
  show "getLinkPose self name arrivals = Inr ([], snd (ensureCurrentState self arrivals))"
  proof (cases ok)
    case False
    then show ?thesis using e by (simp add: getLinkPose_def)
  next
    case True
    with e have "ensureCurrentState self arrivals = (True, self')" by simp
    from ensure_True_monitor [OF this] obtain mon' where
      m': "current_state_monitor self' = Some mon'"
      by blast
    with ensure_monitor [OF e] obtain mon where
      "current_state_monitor self = Some mon" "monitor_model mon' = monitor_model mon"
      by blast
    with u have "getLinkModel (monitor_model mon') name = None" by simp
    then show ?thesis
      using e True m'
      by (simp add: getLinkPose_def getLinkState_def getCurrentState_def
          joint_chain_unknown_link)
  qed
qed

lemma arm_live_ensure: "ensureCurrentState arm_live arrivals = (True, arm_live)"
  by (simp add: ensureCurrentState_def arm_live_def arm_monitor_partial_def isActive_def)

theorem unknown_name_empty_witness:
  "robot_model arm_live = Some arm \<and> getJointModel arm ''elbow'' = None \<and>
   getLinkModel arm ''elbow'' = None \<and>
   current_state_monitor arm_live = Some arm_monitor_partial \<and>
   monitor_model arm_monitor_partial = arm \<and>
   getJointLimits arm_live ''elbow'' = Inr [] \<and>
   getCurrentJointValues arm_live ''elbow'' [(0, update_rest)] = Inr ([], arm_live) \<and>
   getLinkPose arm_live ''elbow'' [(0, update_rest)] = Inr ([], arm_live)"
proof -
  have h1: "robot_model arm_live = Some arm" by (simp add: arm_live_def)
  have h2: "getJointModel arm ''elbow'' = None" by (simp add: arm_def)
  have h3: "getLinkModel arm ''elbow'' = None" by (simp add: arm_def)
  have h4: "current_state_monitor arm_live = Some arm_monitor_partial"
    by (simp add: arm_live_def)
  have h5: "monitor_model arm_monitor_partial = arm" by (simp add: arm_monitor_partial_def)
  show ?thesis
    using h1 h2 h3 h4 h5
      unknown_name_empty [of arm_live arm "''elbow''" "[(0, update_rest)]"]
    by (simp add: arm_live_ensure)
qed

lemma those_None:
  "x \<in> set xs \<Longrightarrow> f x = None \<Longrightarrow> those (map f xs) = None"
  by (induction xs) (auto split: option.splits)

subsection \<open>A pose needs every joint of the chain\<close>

text \<open>
  C2. Let \<open>mon'\<close> be the monitor after \<open>ensureCurrentState\<close>, whose snapshot the query
  serves. If the chain of joints from the root to the link contains a joint one of whose
  variables has no value in that snapshot, \<open>getLinkPose\<close> returns the empty list, not a
  pose. The forward kinematics of \<open>RobotState\<close> is the one modelled from the
  specification.
\<close>

theorem getLinkPose_missing_joint:
  assumes "ensureCurrentState self arrivals = (ok, self')"
    and "current_state_monitor self' = Some mon'"
    and "joint_chain (chain_fuel (monitor_model mon')) (monitor_model mon') link = Some js"
    and "j \<in> set js"
    and "getJointModel (monitor_model mon') j = Some jm"
    and "v \<in> set (getVariableNames jm)"
    and "map_of (getCurrentStateValues mon') v = None"
  shows "getLinkPose self link arrivals = Inr ([], self')"
proof -
  have "those (map (map_of (getCurrentStateValues mon')) (getVariableNames jm)) = None"
    using assms(6,7) by (rule those_None)
  then have "chain_joint_value (monitor_model mon') (getCurrentStateValues mon') j = None"
    using assms(5) by (simp add: chain_joint_value_def)
  with assms(4) have
    "those (map (chain_joint_value (monitor_model mon') (getCurrentStateValues mon')) js) = None"
    by (rule those_None)
  then have "getLinkState (getCurrentState mon') link = None"
    using assms(3) by (simp add: getLinkState_def getCurrentState_def)
  then show ?thesis
    using assms(1,2) by (cases ok) (simp_all add: getLinkPose_def)
qed

theorem getLinkPose_missing_joint_witness:
  "ensureCurrentState arm_live [] = (True, arm_live) \<and>
   current_state_monitor arm_live = Some arm_monitor_partial \<and>
   joint_chain (chain_fuel (monitor_model arm_monitor_partial))
     (monitor_model arm_monitor_partial) ''l3'' = Some [''j1'', ''j2'', ''j3''] \<and>
   ''j2'' \<in> set [''j1'', ''j2'', ''j3''] \<and>
   getJointModel (monitor_model arm_monitor_partial) ''j2'' = Some (revolute ''j2'' ''l1'') \<and>
   ''j2'' \<in> set (getVariableNames (revolute ''j2'' ''l1'')) \<and>
   map_of (getCurrentStateValues arm_monitor_partial) ''j2'' = None \<and>
   getLinkPose arm_live ''l3'' [] = Inr ([], arm_live)"
proof -
  have h1: "ensureCurrentState arm_live [] = (True, arm_live)" by (rule arm_live_ensure)
  have h2: "current_state_monitor arm_live = Some arm_monitor_partial"
    by (simp add: arm_live_def)
  have h3: "joint_chain (chain_fuel (monitor_model arm_monitor_partial))
     (monitor_model arm_monitor_partial) ''l3'' = Some [''j1'', ''j2'', ''j3'']"
    by (simp add: arm_monitor_partial_def chain_fuel_def arm_def revolute_def)
  have h4: "''j2'' \<in> set [''j1'', ''j2'', ''j3'']" by simp
  have h5: "getJointModel (monitor_model arm_monitor_partial) ''j2'' = Some (revolute ''j2'' ''l1'')"
    by (simp add: arm_monitor_partial_def arm_def)
  have h6: "''j2'' \<in> set (getVariableNames (revolute ''j2'' ''l1''))"
    by (simp add: revolute_def)
  have h7: "map_of (getCurrentStateValues arm_monitor_partial) ''j2'' = None"
    by (simp add: getCurrentStateValues_def arm_monitor_partial_def)
  show ?thesis
    using h1 h2 h3 h4 h5 h6 h7 getLinkPose_missing_joint [OF h1 h2 h3 h4 h5 h6 h7]
    by simp
qed

subsection \<open>The table under merges and waits\<close>

lemma merge_entry_keys:
  "fst ` set (merge_entry t q nv tbl) = insert (fst nv) (fst ` set tbl)"
proof (cases "map_of tbl (fst nv)")
  case None
  then show ?thesis by (simp add: merge_entry_def dom_update)
next
  case (Some e)
  then have "(fst nv, e) \<in> set tbl" by (rule map_of_SomeD)
  then have "fst nv \<in> fst ` set tbl" by force
  then have "insert (fst nv) (fst ` set tbl) = fst ` set tbl" by blast
  then show ?thesis
    using Some by (cases e) (simp add: merge_entry_def dom_update)
qed

lemma merge_entry_distinct:
  "distinct (map fst tbl) \<Longrightarrow> distinct (map fst (merge_entry t q nv tbl))"
  by (simp add: merge_entry_def distinct_update split: option.splits prod.splits)

lemma fold_merge_entry_keys:
  "fst ` set tbl \<subseteq> fst ` set (fold (merge_entry t q) nvs tbl)"
proof (induction nvs arbitrary: tbl)
  case Nil
  show ?case by simp
next
  case (Cons nv nvs)
  have "fst ` set tbl \<subseteq> fst ` set (merge_entry t q nv tbl)"
    by (simp add: merge_entry_keys subset_insertI)
  also have "\<dots> \<subseteq> fst ` set (fold (merge_entry t q) nvs (merge_entry t q nv tbl))"
    by (rule Cons.IH)
  finally show ?case by simp
qed

lemma fold_merge_entry_distinct:
  "distinct (map fst tbl) \<Longrightarrow> distinct (map fst (fold (merge_entry t q) nvs tbl))"
  by (induction nvs arbitrary: tbl) (simp_all add: merge_entry_distinct)

lemma ingest_keys:
  "fst ` set (joint_value_table mon) \<subseteq> fst ` set (joint_value_table (ingest u mon))"
  by (simp add: ingest_def merge_def fold_merge_entry_keys)

lemma ingest_distinct:
  "distinct (map fst (joint_value_table mon)) \<Longrightarrow>
     distinct (map fst (joint_value_table (ingest u mon)))"
  by (simp add: ingest_def merge_def fold_merge_entry_distinct)

lemma wait_loop_keys:
  "fst ` set (joint_value_table mon) \<subseteq> fst ` set (joint_value_table (snd (wait_loop us mon)))"
proof (induction us arbitrary: mon)
  case Nil
  show ?case by simp
next
  case (Cons u us)
  show ?case
  proof (cases "haveCompleteState mon")
    case True
    then show ?thesis by simp
  next
    case False
    have "fst ` set (joint_value_table mon) \<subseteq> fst ` set (joint_value_table (ingest u mon))"
      by (rule ingest_keys)
    also have "\<dots> \<subseteq> fst ` set (joint_value_table (snd (wait_loop us (ingest u mon))))"
      by (rule Cons.IH)
    finally show ?thesis using False by simp
  qed
qed

lemma wait_loop_distinct:
  "distinct (map fst (joint_value_table mon)) \<Longrightarrow>
     distinct (map fst (joint_value_table (snd (wait_loop us mon))))"
  by (induction us arbitrary: mon) (simp_all add: ingest_distinct)

lemma wait_loop_complete:
  "fst (wait_loop us mon) = haveCompleteState (snd (wait_loop us mon))"
  by (induction us arbitrary: mon) simp_all

lemma wait_table:
  assumes "waitForCurrentState mon timeout arrivals = (ok, mon')"
  shows "fst ` set (joint_value_table mon) \<subseteq> fst ` set (joint_value_table mon')"
    and "distinct (map fst (joint_value_table mon)) \<Longrightarrow>
         distinct (map fst (joint_value_table mon'))"
    and "ok = isComplete (joint_value_table mon') (getModelVariableNames (monitor_model mon'))"
proof -
  let ?w = "wait_loop (map snd (arrived_within timeout arrivals)) mon"
  from assms have w: "mon' = snd ?w" "ok = fst ?w"
    by (simp_all add: waitForCurrentState_def)
  show "fst ` set (joint_value_table mon) \<subseteq> fst ` set (joint_value_table mon')"
    unfolding w by (rule wait_loop_keys)
  show "distinct (map fst (joint_value_table mon'))" if "distinct (map fst (joint_value_table mon))"
    unfolding w using that by (rule wait_loop_distinct)
  show "ok = isComplete (joint_value_table mon') (getModelVariableNames (monitor_model mon'))"
    unfolding w by (simp add: wait_loop_complete haveCompleteState_def)
qed

text \<open>Only the events within the timeout count.\<close>

lemma arrived_within_idem: "arrived_within timeout (arrived_within timeout arrivals) = arrived_within timeout arrivals"
  by (simp add: arrived_within_def)

lemma wait_arrived_within:
  "waitForCurrentState mon timeout (arrived_within timeout arrivals) =
     waitForCurrentState mon timeout arrivals"
  by (simp add: waitForCurrentState_def arrived_within_idem)

subsection \<open>The dictionary built by the copy loop\<close>

lemma fold_upd_dom:
  "dom (fold (\<lambda>(k, v) d. d(k \<mapsto> v)) vars d0) = fst ` set vars \<union> dom d0"
  by (induction vars arbitrary: d0) (auto split: prod.splits)

lemma dict_of_dom: "dom (dict_of vars) = fst ` set vars"
  by (simp add: dict_of_def fold_upd_dom)

lemma fold_upd_map_of:
  "distinct (map fst vars) \<Longrightarrow>
     fold (\<lambda>(k, v) d. d(k \<mapsto> v)) vars d0 = d0 ++ map_of vars"
proof (induction vars arbitrary: d0)
  case Nil
  show ?case by simp
next
  case (Cons kv vars)
  obtain k v where kv: "kv = (k, v)" by (cases kv)
  from Cons.prems kv have nk: "k \<notin> fst ` set vars" and d: "distinct (map fst vars)"
    by auto
  from nk have none: "map_of vars k = None" by (simp add: map_of_eq_None_iff)
  have "fold (\<lambda>(k, v) d. d(k \<mapsto> v)) (kv # vars) d0 =
        fold (\<lambda>(k, v) d. d(k \<mapsto> v)) vars (d0(k \<mapsto> v))"
    by (simp only: kv fold_simps prod.case)
  also have "\<dots> = d0(k \<mapsto> v) ++ map_of vars"
    by (rule Cons.IH [OF d])
  also have "\<dots> = d0 ++ map_of (kv # vars)"
  proof (rule ext)
    fix x
    show "(d0(k \<mapsto> v) ++ map_of vars) x = (d0 ++ map_of (kv # vars)) x"
      using none kv by (cases "x = k") (simp_all add: map_add_def split: option.splits)
  qed
  finally show ?case .
qed

lemma dict_of_map_of: "distinct (map fst vars) \<Longrightarrow> dict_of vars = map_of vars"
  by (simp add: dict_of_def fold_upd_map_of)

lemma snapshot_keys: "map fst (getCurrentStateValues mon) = map fst (joint_value_table mon)"
  by (simp add: getCurrentStateValues_def case_prod_beta comp_def)

lemma map_filter_ran: "set (List.map_filter f xs) \<subseteq> ran f"
  by (auto simp: List.map_filter_def ran_def)

lemma limits_loop_map:
  "limits_loop lims acc = acc @ map (\<lambda>l. [min_position l, max_position l]) lims"
  by (induction lims arbitrary: acc) simp_all

subsection \<open>The queries on a wired monitor\<close>

lemma start_active: "isActive (startStateMonitor mon)"
  by (simp add: startStateMonitor_def isActive_def)

lemma start_of_active: "isActive mon \<Longrightarrow> startStateMonitor mon = mon"
  by (simp add: startStateMonitor_def isActive_def)

lemma start_table: "joint_value_table (startStateMonitor mon) = joint_value_table mon"
  by (simp add: startStateMonitor_def)

lemma wait_stays_active:
  "waitForCurrentState mon timeout arrivals = (ok, mon') \<Longrightarrow> isActive mon' = isActive mon"
  using wait_keeps_model [of mon timeout arrivals ok mon'] by (simp add: isActive_def)

lemma ensure_inactive_after_wait:
  assumes "current_state_monitor self = Some mon" and "\<not> isActive mon"
    and "waitForCurrentState (startStateMonitor mon) 1 arrivals = (ok, mon')"
  shows "ensureCurrentState self arrivals = (True, after_wait self ok mon')"
  using ensure_inactive [OF assms] by (simp add: after_wait_def log_msg_def)

lemma variable_values_wired:
  assumes "current_state_monitor self = Some mon"
    and "waitForCurrentState (startStateMonitor mon) 1 arrivals = (ok, mon')"
  shows "getCurrentVariableValues self arrivals =
           (dict_of (getCurrentStateValues mon'), after_wait self ok mon')"
proof -
  have "(if \<not> isActive mon then startStateMonitor mon else mon) = startStateMonitor mon"
    by (simp add: start_of_active)
  then show ?thesis
    using assms
    by (simp add: getCurrentVariableValues_def Let_def after_wait_def log_msg_def)
qed

lemma getLinkPose_served:
  assumes "ensureCurrentState self arrivals = (True, self')"
    and "current_state_monitor self' = Some mon'"
  shows "getLinkPose self name arrivals = Inr (served_pose mon' name, self')"
  using assms by (simp add: getLinkPose_def served_pose_def split: option.splits)

lemma getCurrentJointValues_served:
  assumes "ensureCurrentState self arrivals = (True, self')"
    and "current_state_monitor self' = Some mon'"
  shows "getCurrentJointValues self name arrivals = Inr (served_joint_values mon' name, self')"
  using assms
  by (simp add: getCurrentJointValues_def served_joint_values_def split: option.splits)

lemma after_wait_monitor: "current_state_monitor (after_wait self ok mon') = Some mon'"
  by (simp add: after_wait_def)

subsection \<open>Start and wait\<close>

lemma wait_loop_timeout:
  "wait_loop us mon = (False, mon') \<Longrightarrow> mon' = fold ingest us mon"
proof (induction us arbitrary: mon)
  case Nil
  then show ?case by simp
next
  case (Cons u us)
  show ?case
  proof (cases "haveCompleteState mon")
    case True
    with Cons.prems show ?thesis by simp
  next
    case False
    with Cons.prems have "wait_loop us (ingest u mon) = (False, mon')" by simp
    from Cons.IH [OF this] show ?thesis by simp
  qed
qed

lemma ensure_arrived_within:
  "ensureCurrentState self (arrived_within 1 arrivals) = ensureCurrentState self arrivals"
  by (simp add: ensureCurrentState_def wait_arrived_within split: option.splits)

lemma variable_values_arrived_within:
  "getCurrentVariableValues self (arrived_within 1 arrivals) =
     getCurrentVariableValues self arrivals"
  by (simp add: getCurrentVariableValues_def Let_def wait_arrived_within split: option.splits)

text \<open>
  C4, as the code has it. On a wired monitor every query on the live state leaves the
  monitor active. \<open>getCurrentVariableValues\<close> starts the monitor if needed and waits on
  every call, with the timeout of one second, and logs the warning exactly when the wait
  did not reach the full state. \<open>getLinkPose\<close> and \<open>getCurrentJointValues\<close> go through
  \<open>ensureCurrentState\<close>: when the monitor was inactive they start it, wait and warn in
  the same way; when it was already active they neither wait nor log, and serve from the
  snapshot as it is. The wait is bounded by the second: a wait that does not reach the
  full state has ingested every event that arrived within one second, and an event that
  arrives later changes no result.
\<close>

theorem live_query_start_and_wait:
  assumes "current_state_monitor self = Some mon"
    and "waitForCurrentState (startStateMonitor mon) 1 arrivals = (ok, mon')"
  shows "isActive mon' \<and>
     ok = isComplete (joint_value_table mon') (getModelVariableNames (monitor_model mon')) \<and>
     (\<not> ok \<longrightarrow>
        mon' = fold ingest (map snd (arrived_within 1 arrivals)) (startStateMonitor mon)) \<and>
     getCurrentVariableValues self arrivals =
       (dict_of (getCurrentStateValues mon'), after_wait self ok mon') \<and>
     (\<not> isActive mon \<longrightarrow>
        ensureCurrentState self arrivals = (True, after_wait self ok mon') \<and>
        getLinkPose self name arrivals = Inr (served_pose mon' name, after_wait self ok mon') \<and>
        getCurrentJointValues self name arrivals =
          Inr (served_joint_values mon' name, after_wait self ok mon')) \<and>
     (isActive mon \<longrightarrow>
        ensureCurrentState self arrivals = (True, self) \<and>
        getLinkPose self name arrivals = Inr (served_pose mon name, self) \<and>
        getCurrentJointValues self name arrivals = Inr (served_joint_values mon name, self)) \<and>
     getCurrentVariableValues self (arrived_within 1 arrivals) =
       getCurrentVariableValues self arrivals \<and>
     getLinkPose self name (arrived_within 1 arrivals) = getLinkPose self name arrivals \<and>
     getCurrentJointValues self name (arrived_within 1 arrivals) =
       getCurrentJointValues self name arrivals"
proof (intro conjI impI)
  show "isActive mon'"
    using wait_stays_active [OF assms(2)] by (simp add: start_active)
  show "ok = isComplete (joint_value_table mon') (getModelVariableNames (monitor_model mon'))"
    by (rule wait_table(3) [OF assms(2)])
  show "getCurrentVariableValues self arrivals =
       (dict_of (getCurrentStateValues mon'), after_wait self ok mon')"
    by (rule variable_values_wired [OF assms])
  show "getCurrentVariableValues self (arrived_within 1 arrivals) =
       getCurrentVariableValues self arrivals"
    by (rule variable_values_arrived_within)
  show "getLinkPose self name (arrived_within 1 arrivals) = getLinkPose self name arrivals"
    by (simp add: getLinkPose_def ensure_arrived_within)
  show "getCurrentJointValues self name (arrived_within 1 arrivals) =
       getCurrentJointValues self name arrivals"
    by (simp add: getCurrentJointValues_def ensure_arrived_within)
next
  assume "\<not> ok"
  with assms(2) have
    "wait_loop (map snd (arrived_within 1 arrivals)) (startStateMonitor mon) = (False, mon')"
    by (simp add: waitForCurrentState_def)
  then show "mon' = fold ingest (map snd (arrived_within 1 arrivals)) (startStateMonitor mon)"
    by (rule wait_loop_timeout)
next
  assume inactive: "\<not> isActive mon"
  show e: "ensureCurrentState self arrivals = (True, after_wait self ok mon')"
    by (rule ensure_inactive_after_wait [OF assms(1) inactive assms(2)])
  show "getLinkPose self name arrivals = Inr (served_pose mon' name, after_wait self ok mon')"
    by (rule getLinkPose_served [OF e after_wait_monitor])
  show "getCurrentJointValues self name arrivals =
          Inr (served_joint_values mon' name, after_wait self ok mon')"
    by (rule getCurrentJointValues_served [OF e after_wait_monitor])
next
  assume act: "isActive mon"
  show e: "ensureCurrentState self arrivals = (True, self)"
    by (rule ensure_active [OF assms(1) act])
  show "getLinkPose self name arrivals = Inr (served_pose mon name, self)"
    by (rule getLinkPose_served [OF e assms(1)])
  show "getCurrentJointValues self name arrivals = Inr (served_joint_values mon name, self)"
    by (rule getCurrentJointValues_served [OF e assms(1)])
qed

lemma arm_partial_wait_rest:
  "waitForCurrentState (startStateMonitor arm_monitor_partial) 1 [(0, update_rest)] =
     (True, arm_monitor_full)"
  by (simp add: waitForCurrentState_def arrived_within_def ingest_def haveCompleteState_def
      startStateMonitor_def arm_monitor_full_def
      arm_monitor_partial_def arm_def isComplete_def merge_def merge_entry_def update_rest_def)

lemma arm_partial_wait_nothing:
  "waitForCurrentState (startStateMonitor arm_monitor_partial) 1 [] =
     (False, arm_monitor_partial)"
  by (simp add: waitForCurrentState_def arrived_within_def ingest_def haveCompleteState_def
      startStateMonitor_def
      arm_monitor_partial_def arm_def isComplete_def)

lemma arm_partial_pose_l1: "served_pose arm_monitor_partial ''l1'' = [1, 0, 0, 0, 0, 0, 1]"
  by (simp add: served_pose_def getLinkState_def getCurrentState_def getCurrentStateValues_def
      arm_monitor_partial_def chain_fuel_def arm_def revolute_def chain_joint_value_def
      pose_list_def)

lemma arm_partial_values_j1: "served_joint_values arm_monitor_partial ''j1'' = [1]"
  by (simp add: served_joint_values_def getJointState_def getCurrentState_def
      getCurrentStateValues_def arm_monitor_partial_def arm_def revolute_def
      List.map_filter_def)

lemma arm_new_wait_late:
  "waitForCurrentState (startStateMonitor arm_monitor_new) 1
       [(0, update_j1), (2, update_rest)] =
     (False, arm_monitor_partial)"
  by (simp add: waitForCurrentState_def arrived_within_def ingest_def haveCompleteState_def
      startStateMonitor_def arm_monitor_new_def
      arm_monitor_partial_def arm_def isComplete_def merge_def merge_entry_def update_j1_def)

theorem live_query_start_and_wait_witness:
  "current_state_monitor arm_new = Some arm_monitor_new \<and>
   waitForCurrentState (startStateMonitor arm_monitor_new) 1
       [(0, update_j1), (2, update_rest)] =
     (False, arm_monitor_partial) \<and>
   \<not> isActive arm_monitor_new \<and>
   getLinkPose arm_new ''l1'' [(0, update_j1), (2, update_rest)] =
     Inr ([1, 0, 0, 0, 0, 0, 1], arm_warned) \<and>
   getLinkPose arm_new ''l1'' [(0, update_j1)] = Inr ([1, 0, 0, 0, 0, 0, 1], arm_warned) \<and>
   current_state_monitor arm_live = Some arm_monitor_partial \<and>
   waitForCurrentState (startStateMonitor arm_monitor_partial) 1 [(0, update_rest)] =
     (True, arm_monitor_full) \<and>
   isActive arm_monitor_partial \<and>
   getLinkPose arm_live ''l1'' [(0, update_rest)] = Inr ([1, 0, 0, 0, 0, 0, 1], arm_live) \<and>
   snd (getCurrentVariableValues arm_live [(0, update_rest)]) = arm_full"
proof -
  have h1: "current_state_monitor arm_new = Some arm_monitor_new" by (simp add: arm_new_def)
  have h2: "current_state_monitor arm_live = Some arm_monitor_partial"
    by (simp add: arm_live_def)
  have i1: "\<not> isActive arm_monitor_new" by (simp add: isActive_def arm_monitor_new_def)
  have i2: "isActive arm_monitor_partial" by (simp add: isActive_def arm_monitor_partial_def)
  have w: "arrived_within 1 [(0, update_j1), (2, update_rest)] = [(0 :: real, update_j1)]"
    by (simp add: arrived_within_def)
  have a1: "after_wait arm_new False arm_monitor_partial = arm_warned"
    by (simp add: after_wait_def arm_new_def arm_warned_def)
  have a2: "after_wait arm_live True arm_monitor_full = arm_full"
    by (simp add: after_wait_def arm_live_def arm_full_def)
  show ?thesis
    using h1 h2 i1 i2 arm_new_wait_late arm_partial_wait_rest
      live_query_start_and_wait [OF h1 arm_new_wait_late, of "''l1''"]
      live_query_start_and_wait [OF h2 arm_partial_wait_rest, of "''l1''"]
    by (simp add: arm_partial_pose_l1 a1 a2 w)
qed

text \<open>
  The monitor of \<open>arm_live\<close> is active and knows one variable of three, and nothing
  arrives. A wait would last the second and time out, and the warning would be logged;
  yet \<open>getLinkPose\<close> and \<open>getCurrentJointValues\<close> return at once with the interface
  unchanged and the log empty.
\<close>

theorem wait_on_every_call_counterexample:
  "current_state_monitor arm_live = Some arm_monitor_partial \<and>
   waitForCurrentState (startStateMonitor arm_monitor_partial) 1 [] =
     (False, arm_monitor_partial) \<and>
   rosout arm_live = [] \<and>
   getLinkPose arm_live ''l1'' [] = Inr ([1, 0, 0, 0, 0, 0, 1], arm_live) \<and>
   getLinkPose arm_live ''l1'' [] \<noteq>
     Inr ([1, 0, 0, 0, 0, 0, 1], after_wait arm_live False arm_monitor_partial) \<and>
   getCurrentJointValues arm_live ''j1'' [] = Inr ([1], arm_live) \<and>
   getCurrentJointValues arm_live ''j1'' [] \<noteq>
     Inr ([1], after_wait arm_live False arm_monitor_partial)"
proof -
  have h: "current_state_monitor arm_live = Some arm_monitor_partial"
    by (simp add: arm_live_def)
  have p: "getLinkPose arm_live ''l1'' [] = Inr ([1, 0, 0, 0, 0, 0, 1], arm_live)"
    using getLinkPose_served [OF arm_live_ensure h] by (simp add: arm_partial_pose_l1)
  have j: "getCurrentJointValues arm_live ''j1'' [] = Inr ([1], arm_live)"
    using getCurrentJointValues_served [OF arm_live_ensure h]
    by (simp add: arm_partial_values_j1)
  have d: "after_wait arm_live False arm_monitor_partial \<noteq> arm_live"
    by (simp add: after_wait_def arm_live_def)
  show ?thesis
    using h p j d arm_partial_wait_nothing
    by (simp add: arm_live_def)
qed

subsection \<open>Timeout\<close>

lemma fold_upd_values:
  "fold (\<lambda>(k, v) d. d(k \<mapsto> v)) vars d0 n = Some v \<Longrightarrow> (n, v) \<in> set vars \<or> d0 n = Some v"
proof (induction vars arbitrary: d0)
  case Nil
  then show ?case by simp
next
  case (Cons kv vars)
  obtain k w where kv: "kv = (k, w)" by (cases kv)
  have "fold (\<lambda>(k, v) d. d(k \<mapsto> v)) (kv # vars) d0 =
        fold (\<lambda>(k, v) d. d(k \<mapsto> v)) vars (d0(k \<mapsto> w))"
    by (simp only: kv fold_simps prod.case)
  with Cons.prems have "fold (\<lambda>(k, v) d. d(k \<mapsto> v)) vars (d0(k \<mapsto> w)) n = Some v"
    by (simp only:)
  from Cons.IH [OF this] show ?case
    using kv by (auto split: if_splits)
qed

lemma dict_of_values: "dict_of vars n = Some v \<Longrightarrow> (n, v) \<in> set vars"
  using fold_upd_values [of vars Map.empty n v] by (simp add: dict_of_def)

lemma snapshot_entry:
  "(n, v) \<in> set (getCurrentStateValues mon) \<longleftrightarrow>
     (\<exists>t q. (n, v, t, q) \<in> set (joint_value_table mon))"
  by (force simp: getCurrentStateValues_def)

lemma getLinkPose_none:
  assumes "ensureCurrentState self arrivals = (True, self')"
    and "current_state_monitor self' = Some mon'"
    and "getLinkState (getCurrentState mon') name = None"
  shows "getLinkPose self name arrivals = Inr ([], self')"
  using assms by (simp add: getLinkPose_def)

lemma getLinkPose_some:
  assumes "ensureCurrentState self arrivals = (True, self')"
    and "current_state_monitor self' = Some mon'"
    and "getLinkState (getCurrentState mon') name = Some ls"
    and "translation (getGlobalLinkTransform ls) = (x, y, z)"
    and "rotation (getGlobalLinkTransform ls) = (qx, qy, qz, qw)"
  shows "getLinkPose self name arrivals = Inr ([x, y, z, qx, qy, qz, qw], self')"
  using assms by (simp add: getLinkPose_def pose_list_def)

lemma getCurrentJointValues_none:
  assumes "ensureCurrentState self arrivals = (True, self')"
    and "current_state_monitor self' = Some mon'"
    and "getJointState (getCurrentState mon') name = None"
  shows "getCurrentJointValues self name arrivals = Inr ([], self')"
  using assms by (simp add: getCurrentJointValues_def)

lemma getCurrentJointValues_some:
  assumes "ensureCurrentState self arrivals = (True, self')"
    and "current_state_monitor self' = Some mon'"
    and "getJointState (getCurrentState mon') name = Some js"
  shows "getCurrentJointValues self name arrivals = Inr (getVariableValues js, self')"
  using assms by (simp add: getCurrentJointValues_def)

text \<open>
  C7. When the wait of a query on the live state times out, the query does not fail. The
  interface afterwards is \<open>self'\<close>: the monitor left by the wait, and the warning appended
  to the log. \<open>getCurrentVariableValues\<close> returns a dictionary that has exactly the
  variables of the table, among them every variable that was known before the call;
  each of its values is a value of the table, and with one entry per name each entry of
  the table is in it with its value. \<open>ensureCurrentState\<close> still returns true, and the two
  list-valued queries serve from the snapshot left by the wait: the seven numbers of the
  link's transform, or the values of the joint state, and the empty list only when the
  robot state has no such link or joint state.
\<close>

theorem timeout_serves_partial_snapshot:
  assumes "current_state_monitor self = Some mon"
    and "waitForCurrentState (startStateMonitor mon) 1 arrivals = (False, mon')"
    and "self' = self\<lparr>current_state_monitor := Some mon',
                       rosout := rosout self @ [(ROS_WARN, not_known_msg)]\<rparr>"
  shows "snd (getCurrentVariableValues self arrivals) = self' \<and>
     dom (fst (getCurrentVariableValues self arrivals)) = fst ` set (joint_value_table mon') \<and>
     fst ` set (joint_value_table mon) \<subseteq> dom (fst (getCurrentVariableValues self arrivals)) \<and>
     (fst (getCurrentVariableValues self arrivals) n = Some v \<longrightarrow>
        (\<exists>t q. (n, v, t, q) \<in> set (joint_value_table mon'))) \<and>
     (distinct (map fst (joint_value_table mon)) \<and> (n, v, t, q) \<in> set (joint_value_table mon') \<longrightarrow>
        fst (getCurrentVariableValues self arrivals) n = Some v) \<and>
     (\<not> isActive mon \<longrightarrow>
        ensureCurrentState self arrivals = (True, self') \<and>
        (getLinkState (getCurrentState mon') name = None \<longrightarrow>
           getLinkPose self name arrivals = Inr ([], self')) \<and>
        (getLinkState (getCurrentState mon') name = Some ls \<and>
         translation (getGlobalLinkTransform ls) = (x, y, z) \<and>
         rotation (getGlobalLinkTransform ls) = (qx, qy, qz, qw) \<longrightarrow>
           getLinkPose self name arrivals = Inr ([x, y, z, qx, qy, qz, qw], self')) \<and>
        (getJointState (getCurrentState mon') name = None \<longrightarrow>
           getCurrentJointValues self name arrivals = Inr ([], self')) \<and>
        (getJointState (getCurrentState mon') name = Some js \<longrightarrow>
           getCurrentJointValues self name arrivals = Inr (getVariableValues js, self')))"
proof -
  let ?d = "fst (getCurrentVariableValues self arrivals)"
  have aw: "after_wait self False mon' = self'" by (simp add: after_wait_def assms(3))
  have v: "getCurrentVariableValues self arrivals = (dict_of (getCurrentStateValues mon'), self')"
    using variable_values_wired [OF assms(1,2)] aw by simp
  then have d: "?d = dict_of (getCurrentStateValues mon')" and s: "snd (getCurrentVariableValues self arrivals) = self'"
    by simp_all
  have keys: "dom ?d = fst ` set (joint_value_table mon')"
    using snapshot_keys [of mon'] by (simp add: d dict_of_dom flip: set_map)
  have "fst ` set (joint_value_table (startStateMonitor mon)) \<subseteq> fst ` set (joint_value_table mon')"
    by (rule wait_table(1) [OF assms(2)])
  then have known: "fst ` set (joint_value_table mon) \<subseteq> dom ?d"
    by (simp add: keys start_table)
  have from_table: "\<exists>t q. (n, v, t, q) \<in> set (joint_value_table mon')" if "?d n = Some v"
    using that dict_of_values [of "getCurrentStateValues mon'" n v]
    by (simp add: d snapshot_entry)
  have in_dict: "?d n = Some v"
    if "distinct (map fst (joint_value_table mon)) \<and> (n, v, t, q) \<in> set (joint_value_table mon')"
  proof -
    from that have "distinct (map fst (joint_value_table (startStateMonitor mon)))"
      by (simp add: start_table)
    then have "distinct (map fst (joint_value_table mon'))" by (rule wait_table(2) [OF assms(2)])
    then have dist: "distinct (map fst (getCurrentStateValues mon'))" by (simp add: snapshot_keys)
    from that have "(n, v) \<in> set (getCurrentStateValues mon')"
      by (auto simp: snapshot_entry)
    with dist have "map_of (getCurrentStateValues mon') n = Some v" by (rule map_of_is_SomeI)
    then show ?thesis using dist by (simp add: d dict_of_map_of)
  qed
  have m': "current_state_monitor self' = Some mon'" by (simp add: assms(3))
  have rest: "ensureCurrentState self arrivals = (True, self') \<and>
        (getLinkState (getCurrentState mon') name = None \<longrightarrow>
           getLinkPose self name arrivals = Inr ([], self')) \<and>
        (getLinkState (getCurrentState mon') name = Some ls \<and>
         translation (getGlobalLinkTransform ls) = (x, y, z) \<and>
         rotation (getGlobalLinkTransform ls) = (qx, qy, qz, qw) \<longrightarrow>
           getLinkPose self name arrivals = Inr ([x, y, z, qx, qy, qz, qw], self')) \<and>
        (getJointState (getCurrentState mon') name = None \<longrightarrow>
           getCurrentJointValues self name arrivals = Inr ([], self')) \<and>
        (getJointState (getCurrentState mon') name = Some js \<longrightarrow>
           getCurrentJointValues self name arrivals = Inr (getVariableValues js, self'))"
    if inactive: "\<not> isActive mon"
  proof -
    have e: "ensureCurrentState self arrivals = (True, self')"
      using ensure_inactive_after_wait [OF assms(1) inactive assms(2)] aw by simp
    show ?thesis
      using e getLinkPose_none [OF e m'] getLinkPose_some [OF e m']
        getCurrentJointValues_none [OF e m'] getCurrentJointValues_some [OF e m']
      by blast
  qed
  show ?thesis
  proof (intro conjI impI)
    show "snd (getCurrentVariableValues self arrivals) = self'" by (rule s)
    show "dom ?d = fst ` set (joint_value_table mon')" by (rule keys)
    show "fst ` set (joint_value_table mon) \<subseteq> dom ?d" by (rule known)
    show "\<exists>t q. (n, v, t, q) \<in> set (joint_value_table mon')" if "?d n = Some v"
      using that by (rule from_table)
    show "?d n = Some v"
      if "distinct (map fst (joint_value_table mon)) \<and> (n, v, t, q) \<in> set (joint_value_table mon')"
      using that by (rule in_dict)
  qed (use rest in simp_all)
qed

theorem timeout_serves_partial_snapshot_witness:
  "current_state_monitor arm_new = Some arm_monitor_new \<and>
   waitForCurrentState (startStateMonitor arm_monitor_new) 1
       [(0, update_j1), (2, update_rest)] =
     (False, arm_monitor_partial) \<and>
   \<not> isActive arm_monitor_new \<and>
   distinct (map fst (joint_value_table arm_monitor_new)) \<and>
   (''j1'', 1, 1, 1) \<in> set (joint_value_table arm_monitor_partial) \<and>
   getLinkState (getCurrentState arm_monitor_partial) ''l1'' =
     Some \<lparr>getGlobalLinkTransform = \<lparr>translation = (1, 0, 0), rotation = (0, 0, 0, 1)\<rparr>\<rparr> \<and>
   getJointState (getCurrentState arm_monitor_partial) ''j1'' =
     Some \<lparr>getVariableValues = [1]\<rparr> \<and>
   getJointState (getCurrentState arm_monitor_partial) ''l1'' = None \<and>
   snd (getCurrentVariableValues arm_new [(0, update_j1), (2, update_rest)]) = arm_warned \<and>
   fst (getCurrentVariableValues arm_new [(0, update_j1), (2, update_rest)]) ''j1'' = Some 1 \<and>
   fst (getCurrentVariableValues arm_new [(0, update_j1), (2, update_rest)]) ''j2'' = None \<and>
   getLinkPose arm_new ''l1'' [(0, update_j1), (2, update_rest)] =
     Inr ([1, 0, 0, 0, 0, 0, 1], arm_warned) \<and>
   getCurrentJointValues arm_new ''j1'' [(0, update_j1), (2, update_rest)] =
     Inr ([1], arm_warned) \<and>
   getCurrentJointValues arm_new ''l1'' [(0, update_j1), (2, update_rest)] =
     Inr ([], arm_warned)"
proof -
  let ?a = "[(0, update_j1), (2, update_rest)] :: real arrivals"
  have h1: "current_state_monitor arm_new = Some arm_monitor_new" by (simp add: arm_new_def)
  have h3: "arm_warned = arm_new\<lparr>current_state_monitor := Some arm_monitor_partial,
      rosout := rosout arm_new @ [(ROS_WARN, not_known_msg)]\<rparr>"
    by (simp add: arm_warned_def arm_new_def)
  have i1: "\<not> isActive arm_monitor_new" by (simp add: isActive_def arm_monitor_new_def)
  have t1: "distinct (map fst (joint_value_table arm_monitor_new))"
    by (simp add: arm_monitor_new_def)
  have t2: "(''j1'', 1, 1, 1) \<in> set (joint_value_table arm_monitor_partial)"
    by (simp add: arm_monitor_partial_def)
  have l: "getLinkState (getCurrentState arm_monitor_partial) ''l1'' =
     Some \<lparr>getGlobalLinkTransform = \<lparr>translation = (1, 0, 0), rotation = (0, 0, 0, 1)\<rparr>\<rparr>"
    by (simp add: getLinkState_def getCurrentState_def getCurrentStateValues_def
        arm_monitor_partial_def chain_fuel_def arm_def revolute_def chain_joint_value_def)
  have j: "getJointState (getCurrentState arm_monitor_partial) ''j1'' =
     Some \<lparr>getVariableValues = [1]\<rparr>"
    by (simp add: getJointState_def getCurrentState_def getCurrentStateValues_def
        arm_monitor_partial_def arm_def revolute_def List.map_filter_def)
  have jn: "getJointState (getCurrentState arm_monitor_partial) ''l1'' = None"
    by (simp add: getJointState_def getCurrentState_def arm_monitor_partial_def arm_def)
  have k: "fst ` set (joint_value_table arm_monitor_partial) = {''j1''}"
    by (simp add: arm_monitor_partial_def)
  note th = timeout_serves_partial_snapshot [OF h1 arm_new_wait_late h3]
  have c1: "snd (getCurrentVariableValues arm_new ?a) = arm_warned"
    using th by blast
  have c2: "fst (getCurrentVariableValues arm_new ?a) ''j1'' = Some 1"
    using th [of "''j1''" 1 1 1] t1 t2 by blast
  have "dom (fst (getCurrentVariableValues arm_new ?a)) = {''j1''}"
    using th k by simp
  then have "''j2'' \<notin> dom (fst (getCurrentVariableValues arm_new ?a))"
    by simp
  then have c3: "fst (getCurrentVariableValues arm_new ?a) ''j2'' = None"
    by (simp add: domIff)
  have c4: "getLinkPose arm_new ''l1'' ?a = Inr ([1, 0, 0, 0, 0, 0, 1], arm_warned)"
    using th [where name = "''l1''" and ls = "\<lparr>getGlobalLinkTransform =
        \<lparr>translation = (1, 0, 0), rotation = (0, 0, 0, 1)\<rparr>\<rparr>"
        and x = 1 and y = 0 and z = 0 and qx = 0 and qy = 0 and qz = 0 and qw = 1] i1 l
    by simp
  have c5: "getCurrentJointValues arm_new ''j1'' ?a = Inr ([1], arm_warned)"
    using th [where name = "''j1''" and js = "\<lparr>getVariableValues = [1]\<rparr>"] i1 j by simp
  have c6: "getCurrentJointValues arm_new ''l1'' ?a = Inr ([], arm_warned)"
    using th [where name = "''l1''"] i1 jn by blast
  show ?thesis
    using h1 arm_new_wait_late i1 t1 t2 l j jn c1 c2 c3 c4 c5 c6 by simp
qed

subsection \<open>Calls on the model change nothing\<close>

lemma exec_model_only:
  "model_only c \<Longrightarrow> exec c self = Inr (r, self') \<Longrightarrow> self' = self"
  by (cases c) (auto simp: pure_call_def split: sum.splits)

lemma exec_model_only_total:
  assumes "robot_model self = Some m"
    and "map (getJointModelGroup m) (getJointModelGroupNames m) = map Some gs"
    and "model_only c"
  shows "\<exists>r. exec c self = Inr (r, self)"
proof (cases c)
  case (FindMinContainingGroup j)
  from findMin_loop_None [OF assms(2), of j] obtain g where
    "findMin_loop m j (getJointModelGroupNames m) None = Inr g"
    by blast
  then show ?thesis
    using assms(1) FindMinContainingGroup
    by (simp add: pure_call_def findMinContainingGroup_def)
qed (use assms in \<open>simp_all add: pure_call_def getJointNames_def getLinkNames_def
      getGroupNames_def getPlanningFrame_def getJointLimits_def split: option.splits\<close>)

lemma run_model_only:
  "\<forall>c\<in>set cs. model_only c \<Longrightarrow> run cs self = Inr (rs, self') \<Longrightarrow> self' = self"
proof (induction cs arbitrary: rs)
  case Nil
  then show ?case by simp
next
  case (Cons c cs)
  from Cons.prems(2) obtain r s1 rs1 where
    e: "exec c self = Inr (r, s1)" and t: "run cs s1 = Inr (rs1, self')"
    by (auto split: sum.splits prod.splits)
  from Cons.prems(1) have "model_only c" by simp
  from exec_model_only [OF this e] have "s1 = self" .
  with t Cons.IH Cons.prems(1) show ?case by simp
qed

lemma run_model_only_total:
  assumes "robot_model self = Some m"
    and "map (getJointModelGroup m) (getJointModelGroupNames m) = map Some gs"
  shows "\<forall>c\<in>set cs. model_only c \<Longrightarrow> \<exists>rs. run cs self = Inr (rs, self)"
proof (induction cs)
  case Nil
  show ?case by simp
next
  case (Cons c cs)
  from exec_model_only_total [OF assms, of c] Cons.prems obtain r where
    "exec c self = Inr (r, self)" by auto
  moreover from Cons obtain rs where "run cs self = Inr (rs, self)" by auto
  ultimately show ?case by simp
qed

text \<open>
  C10. A run of calls that are all queries on the model returns the interface as it was:
  the monitor, its activity, its table and the log are unchanged, whatever the calls,
  their order and their number. On a model whose listed groups resolve, such a run
  returns.
\<close>

theorem model_queries_change_nothing:
  assumes "\<forall>c\<in>set cs. model_only c"
  shows "(run cs self = Inr (rs, self') \<longrightarrow> self' = self) \<and>
    (robot_model self = Some m \<and>
     map (getJointModelGroup m) (getJointModelGroupNames m) = map Some gs \<longrightarrow>
       (\<exists>rs. run cs self = Inr (rs, self)))"
  using assms run_model_only [of cs self rs self'] run_model_only_total [of self m gs cs]
  by blast

theorem model_queries_change_nothing_witness:
  "list_all model_only [GetPlanningFrame, FindMinContainingGroup ''j1'', GetJointLimits ''j9'',
      GetPlanningFrame :: real call] \<and>
   robot_model arm_live = Some arm \<and>
   map (getJointModelGroup arm) (getJointModelGroupNames arm) = map Some [G1, G2, G3] \<and>
   run [GetPlanningFrame, FindMinContainingGroup ''j1'', GetJointLimits ''j9'',
        GetPlanningFrame] arm_live =
     Inr ([CString (Some ''base''), CString (Some ''G2''), LimitList [],
           CString (Some ''base'')], arm_live)"
proof -
  let ?cs = "[GetPlanningFrame, FindMinContainingGroup ''j1'', GetJointLimits ''j9'',
      GetPlanningFrame :: real call]"
  have h: "\<forall>c\<in>set ?cs. model_only c" by simp
  have h1: "robot_model arm_live = Some arm" by (simp add: arm_live_def)
  have h2: "map (getJointModelGroup arm) (getJointModelGroupNames arm) = map Some [G1, G2, G3]"
    by (simp add: arm_def)
  have f: "getPlanningFrame arm_live = Inr ''base''"
    by (simp add: getPlanningFrame_def arm_live_def arm_def)
  have g: "findMinContainingGroup arm_live ''j1'' = Inr (Some ''G2'')"
    by (simp add: findMinContainingGroup_def arm_live_def arm_def G1_def G2_def G3_def
        hasJointModel_def)
  have l: "getJointLimits arm_live ''j9'' = Inr []"
    by (simp add: getJointLimits_def arm_live_def arm_def)
  show ?thesis
    using h h1 h2 model_queries_change_nothing [OF h, of arm_live _ _ arm "[G1, G2, G3]"]
    by (simp add: f g l pure_call_def)
qed

subsection \<open>An active monitor stays active\<close>

lemma exec_keeps_active:
  assumes "current_state_monitor self = Some mon" and "isActive mon"
    and "exec c self = Inr (r, self')"
  shows "\<exists>mon'. current_state_monitor self' = Some mon' \<and> isActive mon' \<and>
           subscriptions mon' = subscriptions mon"
proof (cases "model_only c")
  case True
  from exec_model_only [OF True assms(3)] have "self' = self" .
  with assms(1,2) show ?thesis by simp
next
  case False
  have e: "ensureCurrentState self arrivals = (True, self)" for arrivals
    by (rule ensure_active [OF assms(1,2)])
  from False show ?thesis
  proof (cases c)
    case (GetLinkPose name arrivals)
    with assms(3) getLinkPose_served [OF e [of arrivals] assms(1), of name] have "self' = self"
      by (simp add: live_call_def)
    with assms(1,2) show ?thesis by simp
  next
    case (GetCurrentJointValues name arrivals)
    with assms(3) getCurrentJointValues_served [OF e [of arrivals] assms(1), of name]
    have "self' = self"
      by (simp add: live_call_def)
    with assms(1,2) show ?thesis by simp
  next
    case (GetCurrentVariableValues arrivals)
    obtain ok mon' where
      w: "waitForCurrentState (startStateMonitor mon) 1 arrivals = (ok, mon')"
      by (cases "waitForCurrentState (startStateMonitor mon) 1 arrivals")
    from variable_values_wired [OF assms(1) w] assms(3) GetCurrentVariableValues
    have "self' = after_wait self ok mon'" by simp
    then have "current_state_monitor self' = Some mon'" by (simp add: after_wait_monitor)
    moreover from wait_keeps_model [OF w] assms(2)
    have "isActive mon' \<and> subscriptions mon' = subscriptions mon"
      by (simp add: start_of_active isActive_def)
    ultimately show ?thesis by simp
  qed simp_all
qed

lemma run_keeps_active:
  "current_state_monitor self = Some mon \<Longrightarrow> isActive mon \<Longrightarrow>
   run cs self = Inr (rs, self') \<Longrightarrow>
     \<exists>mon'. current_state_monitor self' = Some mon' \<and> isActive mon' \<and>
            subscriptions mon' = subscriptions mon"
proof (induction cs arbitrary: self mon rs)
  case Nil
  then show ?case by simp
next
  case (Cons c cs)
  from Cons.prems(3) obtain r s1 rs1 where
    e: "exec c self = Inr (r, s1)" and t: "run cs s1 = Inr (rs1, self')"
    by (auto split: sum.splits prod.splits)
  from exec_keeps_active [OF Cons.prems(1,2) e] obtain mon1 where
    m1: "current_state_monitor s1 = Some mon1" "isActive mon1"
      "subscriptions mon1 = subscriptions mon"
    by blast
  from Cons.IH [OF m1(1,2) t] m1(3) show ?case by simp
qed

text \<open>
  C8. Starting is idempotent: on an active monitor \<open>startStateMonitor\<close> changes nothing,
  so a second start gives the same active monitor with the same number of
  subscriptions. No operation leads back to inactive: a wait keeps the activity and the
  subscriptions, and after any run of calls of the interface on an active monitor the
  monitor is still active and has the subscriptions it had. The monitor's \<open>start\<close> is the
  one modelled from the specification; the queries start it only under the guard
  \<open>isActive\<close>.
\<close>

theorem start_is_idempotent:
  "(isActive mon \<longrightarrow> startStateMonitor mon = mon) \<and>
   isActive (startStateMonitor mon) \<and>
   startStateMonitor (startStateMonitor mon) = startStateMonitor mon \<and>
   (waitForCurrentState mon timeout arrivals = (ok, mon1) \<longrightarrow>
      isActive mon1 = isActive mon \<and> subscriptions mon1 = subscriptions mon) \<and>
   (current_state_monitor self = Some mon \<and> isActive mon \<and> run cs self = Inr (rs, self') \<longrightarrow>
      (\<exists>mon'. current_state_monitor self' = Some mon' \<and> isActive mon' \<and>
              subscriptions mon' = subscriptions mon))"
proof (intro conjI impI)
  show "isActive (startStateMonitor mon)" by (rule start_active)
  then show "startStateMonitor (startStateMonitor mon) = startStateMonitor mon"
    by (rule start_of_active)
next
  assume "isActive mon"
  then show "startStateMonitor mon = mon" by (rule start_of_active)
next
  assume w: "waitForCurrentState mon timeout arrivals = (ok, mon1)"
  show "isActive mon1 = isActive mon" by (rule wait_stays_active [OF w])
  show "subscriptions mon1 = subscriptions mon" using wait_keeps_model [OF w] by simp
next
  assume "current_state_monitor self = Some mon \<and> isActive mon \<and> run cs self = Inr (rs, self')"
  then show "\<exists>mon'. current_state_monitor self' = Some mon' \<and> isActive mon' \<and>
              subscriptions mon' = subscriptions mon"
    using run_keeps_active by blast
qed

theorem start_is_idempotent_witness:
  "isActive arm_monitor_partial \<and>
   startStateMonitor arm_monitor_partial = arm_monitor_partial \<and>
   waitForCurrentState arm_monitor_partial 1 [(0, update_rest)] = (True, arm_monitor_full) \<and>
   subscriptions arm_monitor_full = 1 \<and>
   current_state_monitor arm_live = Some arm_monitor_partial \<and>
   run [GetCurrentJointValues ''j1'' [(0, update_rest)], GetPlanningFrame] arm_live =
     Inr ([DoubleList [1], CString (Some ''base'')], arm_live)"
proof -
  have a: "isActive arm_monitor_partial" by (simp add: isActive_def arm_monitor_partial_def)
  have w: "waitForCurrentState arm_monitor_partial 1 [(0, update_rest)] = (True, arm_monitor_full)"
    using arm_partial_wait_rest a by (simp add: start_of_active)
  have h: "current_state_monitor arm_live = Some arm_monitor_partial"
    by (simp add: arm_live_def)
  have j: "getCurrentJointValues arm_live ''j1'' [(0, update_rest)] = Inr ([1], arm_live)"
    using getCurrentJointValues_served [OF arm_live_ensure h]
    by (simp add: arm_partial_values_j1)
  have f: "getPlanningFrame arm_live = Inr ''base''"
    by (simp add: getPlanningFrame_def arm_live_def arm_def)
  have r: "run [GetCurrentJointValues ''j1'' [(0, update_rest)], GetPlanningFrame] arm_live =
     Inr ([DoubleList [1], CString (Some ''base'')], arm_live)"
    by (simp add: j f live_call_def pure_call_def)
  show ?thesis
    using a w h r
      start_is_idempotent [of arm_monitor_partial 1 "[(0, update_rest)]" True arm_monitor_full
        arm_live "[GetCurrentJointValues ''j1'' [(0, update_rest)], GetPlanningFrame]"
        "[DoubleList [1], CString (Some ''base'')]" arm_live]
    by (simp add: arm_monitor_full_def)
qed

subsection \<open>Variable values, then joint values\<close>

lemma served_joint_values_eq:
  "served_joint_values mon name =
     (case getJointModel (monitor_model mon) name of None \<Rightarrow> []
      | Some jm \<Rightarrow> List.map_filter (map_of (getCurrentStateValues mon)) (getVariableNames jm))"
  by (simp add: served_joint_values_def getJointState_def getCurrentState_def
      split: option.splits)

text \<open>
  C9. Let \<open>getCurrentVariableValues\<close> return the dictionary \<open>d\<close> and the interface
  \<open>self1\<close>, and let \<open>getCurrentJointValues\<close> be called next, on \<open>self1\<close>. The second call
  returns without fault and leaves the monitor as the first call left it, so both read
  the same table. Every value it returns is a value of \<open>d\<close>: for a known joint the list
  is \<open>d\<close> read at the joint's variables in declared order, skipping those not recorded.
  The table is assumed to have one entry per name; the monitor's snapshot and the joint
  state are those modelled from the specification.
\<close>

theorem variable_values_then_joint_values:
  assumes "table_ok self"
    and "getCurrentVariableValues self a1 = (d, self1)"
  shows "\<exists>l self2. getCurrentJointValues self1 name a2 = Inr (l, self2) \<and>
      current_state_monitor self2 = current_state_monitor self1 \<and>
      set l \<subseteq> ran d \<and>
      (\<forall>mon jm. current_state_monitor self1 = Some mon \<and>
          getJointModel (monitor_model mon) name = Some jm \<longrightarrow>
          l = List.map_filter d (getVariableNames jm))"
proof (cases "current_state_monitor self")
  case None
  with assms(2) have s1: "self1 = log_msg ROS_ERROR unable_msg self"
    by (simp add: getCurrentVariableValues_def)
  with None have n1: "current_state_monitor self1 = None" by (simp add: log_msg_def)
  then have "getCurrentJointValues self1 name a2 = Inr ([], log_msg ROS_ERROR unable_msg self1)"
    by (simp add: getCurrentJointValues_def ensure_absent)
  moreover have "current_state_monitor (log_msg ROS_ERROR unable_msg self1) =
      current_state_monitor self1"
    by (simp add: log_msg_def)
  ultimately show ?thesis using n1 by simp
next
  case (Some mon)
  obtain ok mon' where w: "waitForCurrentState (startStateMonitor mon) 1 a1 = (ok, mon')"
    by (cases "waitForCurrentState (startStateMonitor mon) 1 a1")
  from variable_values_wired [OF Some w] assms(2) have
    d: "d = dict_of (getCurrentStateValues mon')" and s1: "self1 = after_wait self ok mon'"
    by simp_all
  from s1 have m1: "current_state_monitor self1 = Some mon'" by (simp add: after_wait_monitor)
  have act: "isActive mon'" using wait_stays_active [OF w] by (simp add: start_active)
  have e: "ensureCurrentState self1 a2 = (True, self1)" by (rule ensure_active [OF m1 act])
  have call: "getCurrentJointValues self1 name a2 = Inr (served_joint_values mon' name, self1)"
    by (rule getCurrentJointValues_served [OF e m1])
  from assms(1) Some have "distinct (map fst (joint_value_table (startStateMonitor mon)))"
    by (simp add: table_ok_def start_table)
  then have "distinct (map fst (joint_value_table mon'))" by (rule wait_table(2) [OF w])
  then have "distinct (map fst (getCurrentStateValues mon'))" by (simp add: snapshot_keys)
  then have dm: "d = map_of (getCurrentStateValues mon')" using d by (simp add: dict_of_map_of)
  have sub: "set (served_joint_values mon' name) \<subseteq> ran d"
  proof (cases "getJointModel (monitor_model mon') name")
    case None
    then show ?thesis by (simp add: served_joint_values_eq)
  next
    case (Some jm)
    then show ?thesis by (simp add: served_joint_values_eq dm map_filter_ran)
  qed
  have known: "served_joint_values mon' name = List.map_filter d (getVariableNames jm)"
    if "getJointModel (monitor_model mon') name = Some jm" for jm
    using that by (simp add: served_joint_values_eq dm)
  show ?thesis using call sub known m1 by auto
qed

lemma arm_new_wait_all:
  "waitForCurrentState (startStateMonitor arm_monitor_new) 1 [(0, update_j1), (1, update_rest)] =
     (True, arm_monitor_full)"
  by (simp add: waitForCurrentState_def arrived_within_def ingest_def haveCompleteState_def
      startStateMonitor_def arm_monitor_new_def
      arm_monitor_full_def arm_def isComplete_def merge_def merge_entry_def update_j1_def
      update_rest_def)

theorem variable_values_then_joint_values_witness:
  "table_ok arm_new \<and>
   getCurrentVariableValues arm_new [(0, update_j1), (1, update_rest)] =
     (dict_of [(''j1'', 1), (''j2'', - 1), (''j3'', 0)], arm_full) \<and>
   getCurrentJointValues arm_full ''j2'' [] = Inr ([- 1], arm_full) \<and>
   dict_of [(''j1'', 1), (''j2'', - 1), (''j3'', 0 :: real)] ''j2'' = Some (- 1)"
proof -
  have t: "table_ok arm_new" by (simp add: table_ok_def arm_new_def arm_monitor_new_def)
  have h: "current_state_monitor arm_new = Some arm_monitor_new" by (simp add: arm_new_def)
  have s: "getCurrentStateValues arm_monitor_full = [(''j1'', 1), (''j2'', - 1), (''j3'', 0)]"
    by (simp add: getCurrentStateValues_def arm_monitor_full_def)
  have a: "after_wait arm_new True arm_monitor_full = arm_full"
    by (simp add: after_wait_def arm_new_def arm_full_def)
  have v: "getCurrentVariableValues arm_new [(0, update_j1), (1, update_rest)] =
     (dict_of [(''j1'', 1), (''j2'', - 1), (''j3'', 0)], arm_full)"
    using variable_values_wired [OF h arm_new_wait_all] by (simp add: s a)
  have m: "current_state_monitor arm_full = Some arm_monitor_full" by (simp add: arm_full_def)
  have e: "ensureCurrentState arm_full [] = (True, arm_full)"
    by (rule ensure_active [OF m]) (simp add: isActive_def arm_monitor_full_def)
  have "served_joint_values arm_monitor_full ''j2'' = [- 1]"
    by (simp add: served_joint_values_def getJointState_def getCurrentState_def
        getCurrentStateValues_def arm_monitor_full_def arm_def revolute_def
        List.map_filter_def)
  then have j: "getCurrentJointValues arm_full ''j2'' [] = Inr ([- 1], arm_full)"
    using getCurrentJointValues_served [OF e m, of "''j2''"] by simp
  have k: "dict_of [(''j1'', 1), (''j2'', - 1), (''j3'', 0 :: real)] ''j2'' = Some (- 1)"
    by (simp add: dict_of_def)
  show ?thesis
    using t v j k variable_values_then_joint_values [OF t v, of "''j2''" "[]"]
    by simp
qed

subsection \<open>Construction\<close>

lemma ensure_keeps_handle:
  "robot_model (snd (ensureCurrentState self arrivals)) = robot_model self"
  by (simp add: ensureCurrentState_def log_msg_def Let_def split: option.splits prod.splits)

lemma exec_keeps_handle:
  assumes "exec c self = Inr (r, self')"
  shows "robot_model self' = robot_model self"
proof (cases "model_only c")
  case True
  from exec_model_only [OF True assms] show ?thesis by simp
next
  case False
  then show ?thesis
  proof (cases c)
    case (GetLinkPose name arrivals)
    with assms have "self' = snd (ensureCurrentState self arrivals)"
      by (auto simp: live_call_def getLinkPose_def
          split: sum.splits prod.splits bool.splits option.splits)
    then show ?thesis by (simp add: ensure_keeps_handle)
  next
    case (GetCurrentJointValues name arrivals)
    with assms have "self' = snd (ensureCurrentState self arrivals)"
      by (auto simp: live_call_def getCurrentJointValues_def
          split: sum.splits prod.splits bool.splits option.splits)
    then show ?thesis by (simp add: ensure_keeps_handle)
  next
    case (GetCurrentVariableValues arrivals)
    with assms show ?thesis
      by (auto simp: getCurrentVariableValues_def log_msg_def Let_def
          split: option.splits prod.splits if_splits)
  qed simp_all
qed

lemma run_keeps_handle:
  "run cs self = Inr (rs, self') \<Longrightarrow> robot_model self' = robot_model self"
proof (induction cs arbitrary: self rs)
  case Nil
  then show ?case by simp
next
  case (Cons c cs)
  from Cons.prems obtain r s1 rs1 where
    e: "exec c self = Inr (r, s1)" and t: "run cs s1 = Inr (rs1, self')"
    by (auto split: sum.splits prod.splits)
  from Cons.IH [OF t] exec_keeps_handle [OF e] show ?case by simp
qed

lemma model_queries_read_handle:
  assumes "robot_model self = Some m"
  shows "getJointNames self = Inr (getJointModelNames m) \<and>
      getLinkNames self = Inr (getLinkModelNames m) \<and>
      getGroupNames self = Inr (getJointModelGroupNames m) \<and>
      getPlanningFrame self = Inr (getModelFrame m) \<and>
      getJointLimits self name =
        Inr (case getJointModel m name of None \<Rightarrow> []
             | Some jm \<Rightarrow> map (\<lambda>l. [min_position l, max_position l]) (getVariableLimits jm)) \<and>
      findMinContainingGroup self j =
        (case findMin_loop m j (getJointModelGroupNames m) None of Inl f \<Rightarrow> Inl f
         | Inr g \<Rightarrow> Inr (map_option getName g))"
  using assms
  by (simp add: getJointNames_def getLinkNames_def getGroupNames_def getPlanningFrame_def
      getJointLimits_def findMinContainingGroup_def limits_loop_map split: option.splits)

text \<open>
  C5, as the code has it. The constructor has no check: the interface it builds holds
  exactly the handle that the model source returned. No bound method assigns the handle,
  so after any run of calls on the constructed interface (the empty run is the interface
  as constructed) it is still that handle. When the model source resolved the model,
  every query on the model, then and later, reads that model.
\<close>

theorem constructor_keeps_model_handle:
  "robot_model (RobotInterfacePython_new getSharedRobotModel getSharedStateMonitor d) =
     getSharedRobotModel d \<and>
   (run cs (RobotInterfacePython_new getSharedRobotModel getSharedStateMonitor d) =
      Inr (rs, self') \<longrightarrow>
      robot_model self' = getSharedRobotModel d \<and>
      (getSharedRobotModel d = Some m \<longrightarrow>
         getJointNames self' = Inr (getJointModelNames m) \<and>
         getLinkNames self' = Inr (getLinkModelNames m) \<and>
         getGroupNames self' = Inr (getJointModelGroupNames m) \<and>
         getPlanningFrame self' = Inr (getModelFrame m) \<and>
         getJointLimits self' name =
           Inr (case getJointModel m name of None \<Rightarrow> []
                | Some jm \<Rightarrow>
                    map (\<lambda>l. [min_position l, max_position l]) (getVariableLimits jm)) \<and>
         findMinContainingGroup self' j =
           (case findMin_loop m j (getJointModelGroupNames m) None of Inl f \<Rightarrow> Inl f
            | Inr g \<Rightarrow> Inr (map_option getName g))))"
proof (intro conjI impI)
  show new: "robot_model (RobotInterfacePython_new getSharedRobotModel getSharedStateMonitor d) =
     getSharedRobotModel d"
    by (simp add: RobotInterfacePython_new_def Let_def)
  assume r: "run cs (RobotInterfacePython_new getSharedRobotModel getSharedStateMonitor d) =
      Inr (rs, self')"
  show later: "robot_model self' = getSharedRobotModel d"
    using run_keeps_handle [OF r] new by simp
  assume "getSharedRobotModel d = Some m"
  with later have m: "robot_model self' = Some m" by simp
  note q = model_queries_read_handle [OF m, of name j]
  show "getJointNames self' = Inr (getJointModelNames m)" using q by blast
  show "getLinkNames self' = Inr (getLinkModelNames m)" using q by blast
  show "getGroupNames self' = Inr (getJointModelGroupNames m)" using q by blast
  show "getPlanningFrame self' = Inr (getModelFrame m)" using q by blast
  show "getJointLimits self' name =
           Inr (case getJointModel m name of None \<Rightarrow> []
                | Some jm \<Rightarrow>
                    map (\<lambda>l. [min_position l, max_position l]) (getVariableLimits jm))"
    using q by blast
  show "findMinContainingGroup self' j =
           (case findMin_loop m j (getJointModelGroupNames m) None of Inl f \<Rightarrow> Inl f
            | Inr g \<Rightarrow> Inr (map_option getName g))"
    using q by blast
qed

theorem constructor_keeps_model_handle_witness:
  "arm_source ''robot_description'' = Some arm \<and>
   RobotInterfacePython_new arm_source monitor_for ''robot_description'' = arm_new \<and>
   run [] (RobotInterfacePython_new arm_source monitor_for ''robot_description'') =
     Inr ([], arm_new) \<and>
   getPlanningFrame arm_new = Inr ''base'' \<and>
   getJointLimits arm_new ''j2'' = Inr [[- 1, 1]] \<and>
   run [GetCurrentVariableValues [(0, update_j1), (1, update_rest)], GetLinkPose ''l1'' []]
       (RobotInterfacePython_new arm_source monitor_for ''robot_description'') =
     Inr ([Dict (dict_of [(''j1'', 1), (''j2'', - 1), (''j3'', 0)]),
           DoubleList [1, 0, 0, 0, 0, 0, 1]], arm_full) \<and>
   robot_model arm_full = Some arm \<and>
   getPlanningFrame arm_full = Inr ''base'' \<and>
   getJointLimits arm_full ''j2'' = Inr [[- 1, 1]]"
proof -
  let ?new = "RobotInterfacePython_new arm_source monitor_for ''robot_description''"
  let ?cs = "[GetCurrentVariableValues [(0, update_j1), (1, update_rest)],
      GetLinkPose ''l1'' []] :: real call list"
  have h: "arm_source ''robot_description'' = Some arm" by (simp add: arm_source_def)
  have n: "?new = arm_new"
    by (simp add: RobotInterfacePython_new_def arm_source_def monitor_for_def arm_new_def
        arm_monitor_new_def)
  have f: "getModelFrame arm = ''base''" by (simp add: arm_def)
  have l: "getJointModel arm ''j2'' = Some (revolute ''j2'' ''l1'')" by (simp add: arm_def)
  have r0: "run [] ?new = Inr ([], arm_new)" by (simp add: n)
  have hm: "current_state_monitor arm_new = Some arm_monitor_new" by (simp add: arm_new_def)
  have s: "getCurrentStateValues arm_monitor_full = [(''j1'', 1), (''j2'', - 1), (''j3'', 0)]"
    by (simp add: getCurrentStateValues_def arm_monitor_full_def)
  have a: "after_wait arm_new True arm_monitor_full = arm_full"
    by (simp add: after_wait_def arm_new_def arm_full_def)
  have v: "getCurrentVariableValues arm_new [(0, update_j1), (1, update_rest)] =
     (dict_of [(''j1'', 1), (''j2'', - 1), (''j3'', 0)], arm_full)"
    using variable_values_wired [OF hm arm_new_wait_all] by (simp add: s a)
  have m: "current_state_monitor arm_full = Some arm_monitor_full" by (simp add: arm_full_def)
  have e: "ensureCurrentState arm_full [] = (True, arm_full)"
    by (rule ensure_active [OF m]) (simp add: isActive_def arm_monitor_full_def)
  have "served_pose arm_monitor_full ''l1'' = [1, 0, 0, 0, 0, 0, 1]"
    by (simp add: served_pose_def getLinkState_def getCurrentState_def
        getCurrentStateValues_def arm_monitor_full_def chain_fuel_def arm_def revolute_def
        chain_joint_value_def pose_list_def)
  then have p: "getLinkPose arm_full ''l1'' [] = Inr ([1, 0, 0, 0, 0, 0, 1], arm_full)"
    using getLinkPose_served [OF e m, of "''l1''"] by simp
  have r1: "run ?cs ?new =
     Inr ([Dict (dict_of [(''j1'', 1), (''j2'', - 1), (''j3'', 0)]),
           DoubleList [1, 0, 0, 0, 0, 0, 1]], arm_full)"
    by (simp add: n v p live_call_def)
  have rm: "robot_model arm_full = Some arm" by (simp add: arm_full_def)
  show ?thesis
    using h n r0 r1 rm
      constructor_keeps_model_handle [of arm_source monitor_for "''robot_description''"
        "[]" "[]" arm_new arm "''j2''" "''j1''"]
      constructor_keeps_model_handle [of arm_source monitor_for "''robot_description''"
        ?cs "[Dict (dict_of [(''j1'', 1), (''j2'', - 1), (''j3'', 0)]),
           DoubleList [1, 0, 0, 0, 0, 0, 1]]" arm_full arm "''j2''" "''j1''"]
    by (simp add: f l revolute_def)
qed

text \<open>
  A model source that resolves nothing: construction completes all the same, the
  interface holds no model, and the first query on the model dereferences null.
\<close>

theorem unresolved_model_counterexample:
  "unresolved_source ''robot_description'' = None \<and>
   RobotInterfacePython_new unresolved_source monitor_for ''robot_description'' =
     \<lparr>robot_model = None, current_state_monitor = None, rosout = []\<rparr> \<and>
   getJointNames (RobotInterfacePython_new unresolved_source monitor_for ''robot_description'') =
     Inl NullPointerDereference"
  by (simp add: RobotInterfacePython_new_def unresolved_source_def monitor_for_def
      getJointNames_def)

end
